theory Spec2Isabelle
  imports Main
begin

unbundle bit_operations_syntax

section \<open>Strings, bytes and exceptions\<close>

text \<open>
  A Python \<open>str\<close> is represented by its UTF-8 encoding, an Isabelle \<open>string\<close>
  (a list of 8-bit characters), and so is a \<open>bytes\<close> object: \<open>s.encode()\<close> and
  \<open>b.decode()\<close> are the identity on this representation, and truthiness of a string is
  non-emptiness. Strings with lone surrogates, which have no UTF-8 encoding, are outside the type.
\<close>

type_synonym bytes = string

datatype error =
    HTTPException nat string
  | BinasciiError string
  | ValueError string
  | IntegrityError string
  | TypeError string

section \<open>SHA-256 and HMAC (the library calls of \<open>app/utils/crypto.py\<close>)\<close>

text \<open>
  \<open>hashlib.sha256\<close> follows FIPS 180-4. A 32-bit word is an \<open>int\<close> in \<open>0 ..< 2^32\<close>;
  addition wraps with \<open>mod 2^32\<close>, rotations and shifts are written with \<open>div\<close> and \<open>mod\<close>.
\<close>

definition add32 :: "int \<Rightarrow> int \<Rightarrow> int" where
  "add32 x y = (x + y) mod 4294967296"

definition rotr :: "nat \<Rightarrow> int \<Rightarrow> int" where
  "rotr n x = x div 2 ^ n + (x mod 2 ^ n) * 2 ^ (32 - n)"

definition shr :: "nat \<Rightarrow> int \<Rightarrow> int" where
  "shr n x = x div 2 ^ n"

definition not32 :: "int \<Rightarrow> int" where
  "not32 x = 4294967295 - x mod 4294967296"

definition Ch :: "int \<Rightarrow> int \<Rightarrow> int \<Rightarrow> int" where
  "Ch x y z = (x AND y) XOR (not32 x AND z)"

definition Maj :: "int \<Rightarrow> int \<Rightarrow> int \<Rightarrow> int" where
  "Maj x y z = (x AND y) XOR (x AND z) XOR (y AND z)"

definition Sigma0 :: "int \<Rightarrow> int" where
  "Sigma0 x = rotr 2 x XOR rotr 13 x XOR rotr 22 x"

definition Sigma1 :: "int \<Rightarrow> int" where
  "Sigma1 x = rotr 6 x XOR rotr 11 x XOR rotr 25 x"

definition sigma0 :: "int \<Rightarrow> int" where
  "sigma0 x = rotr 7 x XOR rotr 18 x XOR shr 3 x"

definition sigma1 :: "int \<Rightarrow> int" where
  "sigma1 x = rotr 17 x XOR rotr 19 x XOR shr 10 x"

text \<open>The round constants: the first 32 bits of the fractional parts of the cube roots of the
  first 64 primes (in decimal; the first is \<open>0x428a2f98\<close>, the last \<open>0xc67178f2\<close>). The
  initial hash value below comes from the square roots of the first 8 primes in the same way.\<close>

definition sha256_K :: "int list" where
  "sha256_K =
    [1116352408, 1899447441, 3049323471, 3921009573, 961987163, 1508970993,
     2453635748, 2870763221, 3624381080, 310598401, 607225278, 1426881987,
     1925078388, 2162078206, 2614888103, 3248222580, 3835390401, 4022224774,
     264347078, 604807628, 770255983, 1249150122, 1555081692, 1996064986,
     2554220882, 2821834349, 2952996808, 3210313671, 3336571891, 3584528711,
     113926993, 338241895, 666307205, 773529912, 1294757372, 1396182291,
     1695183700, 1986661051, 2177026350, 2456956037, 2730485921, 2820302411,
     3259730800, 3345764771, 3516065817, 3600352804, 4094571909, 275423344,
     430227734, 506948616, 659060556, 883997877, 958139571, 1322822218,
     1537002063, 1747873779, 1955562222, 2024104815, 2227730452, 2361852424,
     2428436474, 2756734187, 3204031479, 3329325298]"

type_synonym hstate = "int \<times> int \<times> int \<times> int \<times> int \<times> int \<times> int \<times> int"

definition sha256_H0 :: hstate where
  "sha256_H0 =
    (1779033703, 3144134277, 1013904242, 2773480762, 1359893119, 2600822924, 528734635, 1541459225)"

fun sha256_round :: "int \<Rightarrow> int \<Rightarrow> hstate \<Rightarrow> hstate" where
  "sha256_round k w (a, b, c, d, e, f, g, h) =
     (let t1 = add32 (add32 (add32 (add32 h (Sigma1 e)) (Ch e f g)) k) w;
          t2 = add32 (Sigma0 a) (Maj a b c)
      in (add32 t1 t2, a, b, c, add32 d t1, e, f, g))"

text \<open>The message schedule is kept as a window of the last sixteen words.\<close>

fun schedule_next :: "int list \<Rightarrow> int list" where
  "schedule_next [w0, w1, w2, w3, w4, w5, w6, w7, w8, w9, w10, w11, w12, w13, w14, w15] =
     [w1, w2, w3, w4, w5, w6, w7, w8, w9, w10, w11, w12, w13, w14, w15,
      add32 (add32 (add32 (sigma1 w14) w9) (sigma0 w1)) w0]"
| "schedule_next ws = ws"

fun sha256_rounds :: "int list \<Rightarrow> int list \<Rightarrow> hstate \<Rightarrow> hstate" where
  "sha256_rounds [] ws s = s"
| "sha256_rounds (k # ks) [] s = s"
| "sha256_rounds (k # ks) (w # ws) s =
     sha256_rounds ks (schedule_next (w # ws)) (sha256_round k w s)"

fun sha256_compress :: "hstate \<Rightarrow> int list \<Rightarrow> hstate" where
  "sha256_compress (h0, h1, h2, h3, h4, h5, h6, h7) ws =
     (case sha256_rounds sha256_K ws (h0, h1, h2, h3, h4, h5, h6, h7) of
        (a, b, c, d, e, f, g, h) \<Rightarrow>
          (add32 h0 a, add32 h1 b, add32 h2 c, add32 h3 d,
           add32 h4 e, add32 h5 f, add32 h6 g, add32 h7 h))"

fun be_words :: "int list \<Rightarrow> int list" where
  "be_words (a # b # c # d # r) = (((a * 256 + b) * 256 + c) * 256 + d) # be_words r"
| "be_words r = []"

fun sha256_blocks :: "int list \<Rightarrow> hstate \<Rightarrow> hstate" where
  "sha256_blocks (w0 # w1 # w2 # w3 # w4 # w5 # w6 # w7 # w8 # w9 # w10 # w11 # w12 # w13 # w14 # w15 # r) s =
     sha256_blocks r
       (sha256_compress s [w0, w1, w2, w3, w4, w5, w6, w7, w8, w9, w10, w11, w12, w13, w14, w15])"
| "sha256_blocks r s = s"

definition be32_bytes :: "int \<Rightarrow> int list" where
  "be32_bytes x = [x div 16777216 mod 256, x div 65536 mod 256, x div 256 mod 256, x mod 256]"

definition be64_bytes :: "int \<Rightarrow> int list" where
  "be64_bytes x = be32_bytes (x div 4294967296) @ be32_bytes (x mod 4294967296)"

definition sha256_pad :: "int list \<Rightarrow> int list" where
  "sha256_pad m =
     m @ [0x80] @ replicate ((119 - length m mod 64) mod 64) 0 @ be64_bytes (8 * int (length m))"

fun digest_words :: "hstate \<Rightarrow> int list" where
  "digest_words (a, b, c, d, e, f, g, h) = [a, b, c, d, e, f, g, h]"

definition sha256 :: "bytes \<Rightarrow> bytes" where
  "sha256 m = map char_of
     (concat (map be32_bytes
        (digest_words (sha256_blocks (be_words (sha256_pad (map of_char m))) sha256_H0))))"

text \<open>\<open>hmac.new(key, msg, hashlib.sha256).digest()\<close>, RFC 2104 with a 64-byte block.\<close>

definition xor_pad :: "int \<Rightarrow> bytes \<Rightarrow> bytes" where
  "xor_pad p k = map (\<lambda>c. char_of ((of_char c :: int) XOR p)) k"

definition hmac_sha256 :: "bytes \<Rightarrow> bytes \<Rightarrow> bytes" where
  "hmac_sha256 key msg =
     (let k0 = (if length key > 64 then sha256 key else key);
          k = k0 @ replicate (64 - length k0) (CHR 0x00)
      in sha256 (xor_pad 0x5c k @ sha256 (xor_pad 0x36 k @ msg)))"

text \<open>\<open>hmac.compare_digest\<close>: equality of the two byte strings (in constant time).\<close>

definition compare_digest :: "bytes \<Rightarrow> bytes \<Rightarrow> bool" where
  "compare_digest a b = (a = b)"

section \<open>URL-safe base64 (\<open>base64.urlsafe_b64encode\<close>, \<open>base64.urlsafe_b64decode\<close>)\<close>

definition table_b2a_base64 :: string where
  "table_b2a_base64 = ''ABCDEFGHIJKLMNOPQRSTUVWXYZabcdefghijklmnopqrstuvwxyz0123456789+/''"

definition b2a_char :: "int \<Rightarrow> char" where
  "b2a_char i = table_b2a_base64 ! nat i"

text \<open>\<open>binascii.b2a_base64(s, newline=False)\<close>: three bytes give four characters, six bits
  each; one or two trailing bytes give two or three characters and \<open>=\<close> padding.\<close>

fun b2a_base64 :: "bytes \<Rightarrow> bytes" where
  "b2a_base64 (a # b # c # r) =
     b2a_char (of_char a div 4) #
     b2a_char (of_char a mod 4 * 16 + of_char b div 16) #
     b2a_char (of_char b mod 16 * 4 + of_char c div 64) #
     b2a_char (of_char c mod 64) # b2a_base64 r"
| "b2a_base64 [a, b] =
     [b2a_char (of_char a div 4),
      b2a_char (of_char a mod 4 * 16 + of_char b div 16),
      b2a_char (of_char b mod 16 * 4), CHR ''='']"
| "b2a_base64 [a] =
     [b2a_char (of_char a div 4), b2a_char (of_char a mod 4 * 16), CHR ''='', CHR ''='']"
| "b2a_base64 [] = []"

definition urlsafe_encode_translation :: "char \<Rightarrow> char" where
  "urlsafe_encode_translation c =
     (if c = CHR ''+'' then CHR ''-'' else if c = CHR ''/'' then CHR ''_'' else c)"

definition urlsafe_b64encode :: "bytes \<Rightarrow> bytes" where
  "urlsafe_b64encode s = map urlsafe_encode_translation (b2a_base64 s)"

definition urlsafe_decode_translation :: "char \<Rightarrow> char" where
  "urlsafe_decode_translation c =
     (if c = CHR ''-'' then CHR ''+'' else if c = CHR ''_'' then CHR ''/'' else c)"

text \<open>\<open>table_a2b_base64\<close>: the value of a character of the standard alphabet, \<open>None\<close> for
  every other byte.\<close>

definition table_a2b_base64 :: "char \<Rightarrow> int option" where
  "table_a2b_base64 = map_of (zip table_b2a_base64 [0..63])"

text \<open>
  \<open>binascii.a2b_base64\<close> in its default non-strict mode (CPython 3.11): bytes outside the
  alphabet are skipped, padding is honoured once the quad holds at least two characters, and
  input that ends inside a quad raises \<open>binascii.Error\<close>. The state is the position in the
  quad, the bits left over from the previous character, the padding count, and the output so far.
  The C code assembles each byte with shifts and \<open>|\<close> on disjoint bit ranges, written here
  with \<open>*\<close>, \<open>+\<close>, \<open>div\<close> and \<open>mod\<close>.
\<close>

fun a2b_loop :: "nat \<Rightarrow> int \<Rightarrow> nat \<Rightarrow> bytes \<Rightarrow> bytes \<Rightarrow> error + bytes" where
  "a2b_loop quad_pos leftchar pads out [] =
     (if quad_pos = 0 then Inr out
      else if quad_pos = 1 then Inl (BinasciiError ''Invalid base64-encoded string'')
      else Inl (BinasciiError ''Incorrect padding''))"
| "a2b_loop quad_pos leftchar pads out (c # cs) =
     (if c = CHR ''='' then
        (if quad_pos \<ge> 2 \<and> quad_pos + (pads + 1) \<ge> 4 then Inr out
         else a2b_loop quad_pos leftchar (if quad_pos \<ge> 2 then pads + 1 else pads) out cs)
      else
        (case table_a2b_base64 c of
           None \<Rightarrow> a2b_loop quad_pos leftchar pads out cs
         | Some v \<Rightarrow>
             (if quad_pos = 0 then a2b_loop 1 v 0 out cs
              else if quad_pos = 1 then
                a2b_loop 2 (v mod 16) 0 (out @ [char_of (leftchar * 4 + v div 16)]) cs
              else if quad_pos = 2 then
                a2b_loop 3 (v mod 4) 0 (out @ [char_of (leftchar * 16 + v div 4)]) cs
              else a2b_loop 0 0 0 (out @ [char_of (leftchar * 64 + v)]) cs)))"

definition a2b_base64 :: "bytes \<Rightarrow> error + bytes" where
  "a2b_base64 s = a2b_loop 0 0 0 [] s"

definition urlsafe_b64decode :: "bytes \<Rightarrow> error + bytes" where
  "urlsafe_b64decode s = a2b_base64 (map urlsafe_decode_translation s)"

section \<open>Activation tokens (\<open>app/utils/crypto.py\<close>)\<close>

text \<open>\<open>str(n)\<close> for an integer: decimal digits, with a leading minus sign when negative.\<close>

fun digits :: "nat \<Rightarrow> string" where
  "digits n = (if n < 10 then [''0123456789'' ! n]
               else digits (n div 10) @ [''0123456789'' ! (n mod 10)])"

declare digits.simps [simp del]

definition str_int :: "int \<Rightarrow> string" where
  "str_int i = (if i < 0 then CHR ''-'' # digits (nat (- i)) else digits (nat i))"

text \<open>\<open>device_id or ''\<close>: an absent or empty device id gives the empty string.\<close>

definition or_empty :: "string option \<Rightarrow> string" where
  "or_empty d = (case d of None \<Rightarrow> [] | Some s \<Rightarrow> s)"

text \<open>
  \<open>sign_activation\<close>. \<open>ACTIVATION_SECRET\<close> is the process-wide secret read from the
  environment at import time; \<open>issued\<close> is the integer \<open>int(datetime.utcnow().timestamp())\<close>
  that the function reads from the clock.
\<close>

definition activation_payload :: "string \<Rightarrow> string option \<Rightarrow> int \<Rightarrow> string" where
  "activation_payload license_key device_id issued =
     license_key @ ''|'' @ or_empty device_id @ ''|'' @ str_int issued"

definition sign_activation :: "string \<Rightarrow> string \<Rightarrow> string option \<Rightarrow> int \<Rightarrow> string" where
  "sign_activation ACTIVATION_SECRET license_key device_id issued =
     (let payload = activation_payload license_key device_id issued;
          sig = hmac_sha256 ACTIVATION_SECRET payload
      in urlsafe_b64encode (payload @ ''~'' @ sig))"

text \<open>\<open>raw.rsplit(b"~", 1)\<close>: split at the last separator byte, or the whole string alone when
  there is none.\<close>

definition rsplit1 :: "char \<Rightarrow> bytes \<Rightarrow> bytes list" where
  "rsplit1 sep raw =
     (if sep \<in> set raw
      then [rev (tl (dropWhile (\<lambda>c. c \<noteq> sep) (rev raw))), rev (takeWhile (\<lambda>c. c \<noteq> sep) (rev raw))]
      else [raw])"

text \<open>The body of the \<open>try\<close> block of \<open>verify_activation_token\<close>: the decoder may raise
  \<open>binascii.Error\<close>, and unpacking a one-element list into \<open>payload, sig\<close> raises
  \<open>ValueError\<close>.\<close>

definition verify_try :: "string \<Rightarrow> string \<Rightarrow> error + bool" where
  "verify_try ACTIVATION_SECRET token =
     (case urlsafe_b64decode token of
        Inl e \<Rightarrow> Inl e
      | Inr raw \<Rightarrow>
          (case rsplit1 CHR ''~'' raw of
             [payload, sig] \<Rightarrow>
               Inr (compare_digest (hmac_sha256 ACTIVATION_SECRET payload) sig)
           | _ \<Rightarrow> Inl (ValueError ''not enough values to unpack (expected 2, got 1)'')))"

text \<open>\<open>verify_activation_token\<close>: \<open>except Exception: return False\<close> turns every exception
  of the body into the result \<open>False\<close>.\<close>

definition verify_activation_token :: "string \<Rightarrow> string \<Rightarrow> error + bool" where
  "verify_activation_token ACTIVATION_SECRET token =
     (case verify_try ACTIVATION_SECRET token of
        Inl e \<Rightarrow> Inr False
      | Inr ok \<Rightarrow> Inr ok)"

section \<open>Data model (\<open>app/models.py\<close>)\<close>

text \<open>
  A \<open>datetime\<close> is an instant on a linear time axis, counted in microseconds, and
  comparing a stored time with the clock is the order of instants. Nullable columns are options. \<open>lic_id\<close> and \<open>act_id\<close> are the integer primary keys \<open>id\<close> of the
  two tables.
\<close>

type_synonym datetime = int

definition days :: "int \<Rightarrow> int" where
  "days n = n * 86400000000"

record License =
  lic_id :: nat
  license_key :: string
  owner :: "string option"
  plan :: "string option"
  expires_at :: "datetime option"
  max_activations :: "int option"
  active :: "bool option"
  lic_created_at :: datetime

record Activation =
  act_id :: nat
  license_id :: nat
  device_id :: "string option"
  device_fingerprint :: "string option"
  ip :: "string option"
  last_seen :: datetime
  act_created_at :: datetime

text \<open>The database: the rows of the two tables, in insertion order.\<close>

record 'l store =
  licenses :: "'l list"
  activations :: "Activation list"

type_synonym db = "License store"

text \<open>The next value of an autoincrement primary key.\<close>

definition next_id :: "nat list \<Rightarrow> nat" where
  "next_id ids = Suc (fold max ids 0)"

text \<open>\<open>db.query(License).filter(License.license_key == license_key).first()\<close>\<close>

definition first_license :: "db \<Rightarrow> string \<Rightarrow> License option" where
  "first_license d k = find (\<lambda>l. license_key l = k) (licenses d)"

text \<open>\<open>db.query(Activation).filter(Activation.license_id == lic.id,
  Activation.device_id == device_id).first()\<close>\<close>

definition first_activation :: "'l store \<Rightarrow> nat \<Rightarrow> string \<Rightarrow> Activation option" where
  "first_activation d lid dev =
     find (\<lambda>a. license_id a = lid \<and> device_id a = Some dev) (activations d)"

text \<open>\<open>db.query(Activation).filter(Activation.license_id == lic.id).count()\<close>\<close>

definition count_activations :: "'l store \<Rightarrow> nat \<Rightarrow> nat" where
  "count_activations d lid = length (filter (\<lambda>a. license_id a = lid) (activations d))"

text \<open>\<open>existing.last_seen = datetime.utcnow(); db.add(existing); db.commit()\<close>: an update of
  the row with the primary key of \<open>existing\<close>.\<close>

definition touch_activation :: "Activation \<Rightarrow> datetime \<Rightarrow> 'l store \<Rightarrow> 'l store" where
  "touch_activation existing now d =
     d\<lparr>activations :=
         map (\<lambda>a. if act_id a = act_id existing then a\<lparr>last_seen := now\<rparr> else a) (activations d)\<rparr>"

text \<open>\<open>db.add(a); db.commit(); db.refresh(a)\<close> for a new Activation: the row is appended
  with a fresh primary key; \<open>created_at\<close> takes its server default.\<close>

definition add_activation ::
  "nat \<Rightarrow> string \<Rightarrow> string option \<Rightarrow> string option \<Rightarrow> datetime \<Rightarrow> 'l store \<Rightarrow> 'l store" where
  "add_activation lid dev fingerprint ip_addr now d =
     d\<lparr>activations := activations d @
         [\<lparr>act_id = next_id (map act_id (activations d)), license_id = lid,
           device_id = Some dev, device_fingerprint = fingerprint, ip = ip_addr,
           last_seen = now, act_created_at = now\<rparr>]\<rparr>"

section \<open>The activation endpoint (\<open>app/routes/licenses.py\<close>)\<close>

text \<open>The JSON body of a request, read with \<open>payload.get\<close>: a missing key is \<open>None\<close>.\<close>

record activate_payload =
  req_license_key :: "string option"
  req_device_id :: "string option"
  req_device_fingerprint :: "string option"

text \<open>\<open>request.client.host if request.client else None\<close>, when a request object is given.\<close>

datatype Request = Request (client_host: "string option")

text \<open>The \<open>license\<close> entry of a response; \<open>'e\<close> is how the expiry is rendered.\<close>

datatype 'e license_info =
  LicenseInfo (info_key: string) (info_owner: "string option") (info_plan: "string option")
    (info_expires_at: "'e option")

record 'e response =
  valid :: bool
  message :: string
  activation_token :: "string option"
  license :: "'e license_info option"

definition refusal :: "string \<Rightarrow> 'e response" where
  "refusal msg = \<lparr>valid = False, message = msg, activation_token = None, license = None\<rparr>"

definition license_summary :: "License \<Rightarrow> datetime license_info" where
  "license_summary lic = LicenseInfo (license_key lic) (owner lic) (plan lic) (expires_at lic)"

definition granted :: "string \<Rightarrow> string \<Rightarrow> 'e license_info \<Rightarrow> 'e response" where
  "granted msg token info =
     \<lparr>valid = True, message = msg, activation_token = Some token, license = Some info\<rparr>"

text \<open>
  \<open>lic.expires_at and lic.expires_at < datetime.utcnow()\<close>. The column is declared
  \<open>DateTime(timezone=True)\<close> in \<open>app/models.py\<close>, and \<open>datetime.utcnow()\<close> is a naive
  datetime. A backend with a timestamp-with-time-zone type (PostgreSQL, the one
  \<open>app/database.py\<close> names) hands the stored value back timezone-aware, and the comparison
  of an aware with a naive datetime raises \<open>TypeError\<close>; a backend without such a type (SQLite)
  hands it back naive and the comparison is the order of the two instants. \<open>tz_aware\<close> says
  which kind of backend serves the session. An absent expiry is decided by the \<open>and\<close> before
  any comparison.
\<close>

definition expired :: "bool \<Rightarrow> License \<Rightarrow> datetime \<Rightarrow> error + bool" where
  "expired tz_aware lic now =
     (case expires_at lic of
        None \<Rightarrow> Inr False
      | Some e \<Rightarrow>
          if tz_aware
          then Inl (TypeError ''can't compare offset-naive and offset-aware datetimes'')
          else Inr (e < now))"

text \<open>\<open>lic.max_activations or 0\<close>\<close>

definition max_act_of :: "int option \<Rightarrow> int" where
  "max_act_of m = (case m of None \<Rightarrow> 0 | Some n \<Rightarrow> n)"

text \<open>The lookup of an existing activation, made only when a device id is given
  (\<open>if device_id:\<close>).\<close>

definition existing_activation :: "'l store \<Rightarrow> nat \<Rightarrow> string option \<Rightarrow> Activation option" where
  "existing_activation d lid dev =
     (case dev of
        None \<Rightarrow> None
      | Some x \<Rightarrow> if x \<noteq> [] then first_activation d lid x else None)"

text \<open>\<open>device_id or "unknown"\<close>\<close>

definition or_unknown :: "string option \<Rightarrow> string" where
  "or_unknown dev = (case dev of None \<Rightarrow> ''unknown'' | Some x \<Rightarrow> if x \<noteq> [] then x else ''unknown'')"

definition request_ip :: "Request option \<Rightarrow> string option" where
  "request_ip request = (case request of None \<Rightarrow> None | Some r \<Rightarrow> client_host r)"

text \<open>
  \<open>activate_license\<close>. \<open>now\<close> is the value of \<open>datetime.utcnow()\<close> during the request and
  \<open>issued\<close> the timestamp that \<open>sign_activation\<close> reads; the result is the raised exception, or
  the returned dictionary together with the database after the request. An exception of the
  expiry check is raised before anything is written.
\<close>

definition activate_license ::
  "bool \<Rightarrow> string \<Rightarrow> datetime \<Rightarrow> int \<Rightarrow> activate_payload \<Rightarrow> Request option \<Rightarrow> db
     \<Rightarrow> error + (datetime response \<times> db)" where
  "activate_license tz_aware ACTIVATION_SECRET now issued payload request d =
     (case req_license_key payload of
        None \<Rightarrow> Inl (HTTPException 400 ''license_key required'')
      | Some k \<Rightarrow>
          if k = [] then Inl (HTTPException 400 ''license_key required'')
          else
            (case first_license d k of
               None \<Rightarrow> Inr (refusal ''License not found'', d)
             | Some lic \<Rightarrow>
                 if active lic \<noteq> Some True then Inr (refusal ''License disabled'', d)
                 else
                   (case expired tz_aware lic now of
                      Inl e \<Rightarrow> Inl e
                    | Inr past \<Rightarrow>
                        if past then Inr (refusal ''License expired'', d)
                        else
                          (case existing_activation d (lic_id lic) (req_device_id payload) of
                             Some existing \<Rightarrow>
                               Inr (granted ''OK''
                                      (sign_activation ACTIVATION_SECRET (license_key lic)
                                         (req_device_id payload) issued)
                                      (license_summary lic),
                                    touch_activation existing now d)
                           | None \<Rightarrow>
                               let act_count = count_activations d (lic_id lic);
                                   max_act = max_act_of (max_activations lic)
                               in if max_act > 0 \<and> int act_count \<ge> max_act
                                  then Inr (refusal ''Activation limit reached'', d)
                                  else
                                    Inr (granted ''Activated''
                                           (sign_activation ACTIVATION_SECRET (license_key lic)
                                              (req_device_id payload) issued)
                                           (license_summary lic),
                                         add_activation (lic_id lic)
                                           (or_unknown (req_device_id payload))
                                           (req_device_fingerprint payload) (request_ip request)
                                           now d)))))"

section \<open>The Supabase variant of the endpoint (\<open>main.py\<close>)\<close>

text \<open>
  A row of the remote \<open>licenses\<close> table is a JSON object. The columns read with
  \<open>lic.get(key, default)\<close> may be missing from the object, \<open>null\<close>, or hold a value;
  \<open>expires_at\<close> is an ISO string. The REST calls are modelled by their effect on the two
  tables; a call that fails raises an HTTP 500 before any decision is returned and is not modelled.
\<close>

datatype 'a column = Missing | Null | Value 'a

definition get_or :: "'a column \<Rightarrow> 'a option \<Rightarrow> 'a option" where
  "get_or c dflt = (case c of Missing \<Rightarrow> dflt | Null \<Rightarrow> None | Value v \<Rightarrow> Some v)"

record sb_license =
  sb_id :: nat
  sb_key :: string
  sb_owner :: "string option"
  sb_plan :: "string option"
  sb_expires_at :: "string option"
  sb_max_activations :: "int column"
  sb_active :: "bool column"
  sb_created_at :: datetime

type_synonym supabase = "sb_license store"

record CheckRequest =
  chk_license_key :: string
  chk_device_id :: "string option"
  chk_device_fingerprint :: "string option"

definition supabase_get_license_row :: "supabase \<Rightarrow> string \<Rightarrow> sb_license option" where
  "supabase_get_license_row d k = find (\<lambda>l. sb_key l = k) (licenses d)"

definition supabase_get_activations_for_license :: "supabase \<Rightarrow> nat \<Rightarrow> Activation list" where
  "supabase_get_activations_for_license d lid = filter (\<lambda>a. license_id a = lid) (activations d)"

definition sb_summary :: "sb_license \<Rightarrow> string license_info" where
  "sb_summary lic = LicenseInfo (sb_key lic) (sb_owner lic) (sb_plan lic) (sb_expires_at lic)"

text \<open>
  The expiry check of \<open>api_check\<close>. The parameter \<open>iso_before\<close> stands for the body of its
  \<open>try\<close> block, \<open>datetime.fromisoformat(expires_at.replace("Z", "+00:00")) < datetime.utcnow()\<close>:
  \<open>Some b\<close> is the outcome of the comparison and \<open>None\<close> an exception, which the handler passes
  over.
\<close>

definition sb_expired :: "(string \<Rightarrow> datetime \<Rightarrow> bool option) \<Rightarrow> sb_license \<Rightarrow> datetime \<Rightarrow> bool" where
  "sb_expired iso_before lic now =
     (case sb_expires_at lic of
        None \<Rightarrow> False
      | Some e \<Rightarrow> e \<noteq> [] \<and> iso_before e now = Some True)"

text \<open>The loop over the fetched activations, run only when a device id is given.\<close>

definition existing_in :: "Activation list \<Rightarrow> string option \<Rightarrow> Activation option" where
  "existing_in acts dev =
     (case dev of
        None \<Rightarrow> None
      | Some x \<Rightarrow> if x \<noteq> [] then find (\<lambda>a. device_id a = Some x) acts else None)"

definition api_check ::
  "(string \<Rightarrow> datetime \<Rightarrow> bool option) \<Rightarrow> string \<Rightarrow> datetime \<Rightarrow> int \<Rightarrow> CheckRequest \<Rightarrow> supabase
     \<Rightarrow> string response \<times> supabase" where
  "api_check iso_before ACTIVATION_SECRET now issued req d =
     (case supabase_get_license_row d (chk_license_key req) of
        None \<Rightarrow> (refusal ''License not found'', d)
      | Some lic \<Rightarrow>
          if get_or (sb_active lic) (Some True) \<noteq> Some True then (refusal ''License disabled'', d)
          else if sb_expired iso_before lic now then (refusal ''License expired'', d)
          else
            let acts = supabase_get_activations_for_license d (sb_id lic) in
            (case existing_in acts (chk_device_id req) of
               Some existing \<Rightarrow>
                 (granted ''OK''
                    (sign_activation ACTIVATION_SECRET (sb_key lic) (chk_device_id req) issued)
                    (sb_summary lic),
                  touch_activation existing now d)
             | None \<Rightarrow>
                 let max_act = max_act_of (get_or (sb_max_activations lic) (Some 1))
                 in if max_act > 0 \<and> int (length acts) \<ge> max_act
                    then (refusal ''Activation limit reached'', d)
                    else
                      (granted ''Activated''
                         (sign_activation ACTIVATION_SECRET (sb_key lic) (chk_device_id req) issued)
                         (sb_summary lic),
                       add_activation (sb_id lic) (or_unknown (chk_device_id req))
                         (chk_device_fingerprint req) None now d)))"

section \<open>Creating licenses (\<open>app/routes/admin.py\<close>, \<open>cli/create_license_cli.py\<close>, \<open>main.py\<close>)\<close>

text \<open>\<open>verify_admin\<close>: the exception raised for a token different from \<open>ADMIN_TOKEN\<close>.\<close>

definition verify_admin :: "string \<Rightarrow> string option \<Rightarrow> error option" where
  "verify_admin ADMIN_TOKEN token =
     (if token \<noteq> Some ADMIN_TOKEN then Some (HTTPException 401 ''Unauthorized'') else None)"

text \<open>\<open>db.add(lic); db.commit()\<close> for a new License: the row gets a fresh primary key, and the
  unique constraint on \<open>license_key\<close> rejects a key already in the table.\<close>

definition add_license ::
  "string \<Rightarrow> string option \<Rightarrow> string option \<Rightarrow> datetime option \<Rightarrow> int \<Rightarrow> datetime \<Rightarrow> db \<Rightarrow> error + (License \<times> db)" where
  "add_license k own pl expiry max_act now d =
     (if k \<in> set (map license_key (licenses d))
      then Inl (IntegrityError ''duplicate key value violates unique constraint'')
      else
        let lic = \<lparr>lic_id = next_id (map lic_id (licenses d)), license_key = k, owner = own,
                   plan = pl, expires_at = expiry, max_activations = Some max_act,
                   active = Some True, lic_created_at = now\<rparr>
        in Inr (lic, d\<lparr>licenses := licenses d @ [lic]\<rparr>))"

text \<open>
  \<open>create_license\<close> of \<open>app/routes/admin.py\<close>. \<open>key\<close> is the value that
  \<open>generate_license_key()\<close> returns; the response holds the key, the expiry and the quota of
  the created license.
\<close>

definition create_license ::
  "string \<Rightarrow> datetime \<Rightarrow> string \<Rightarrow> string \<Rightarrow> string \<Rightarrow> int \<Rightarrow> string option \<Rightarrow> db
     \<Rightarrow> error + ((string \<times> datetime option \<times> int option) \<times> db)" where
  "create_license ADMIN_TOKEN now key owner_name duration_plan max_acts x_admin_token d =
     (case verify_admin ADMIN_TOKEN x_admin_token of
        Some e \<Rightarrow> Inl e
      | None \<Rightarrow>
          (case (if duration_plan = ''1month'' then Inr (Some (now + days 30))
                 else if duration_plan = ''3months'' then Inr (Some (now + days 90))
                 else if duration_plan = ''6months'' then Inr (Some (now + days 180))
                 else if duration_plan = ''lifetime'' then Inr None
                 else Inl (HTTPException 400 ''Unknown duration_plan'')) of
             Inl e \<Rightarrow> Inl e
           | Inr expiry \<Rightarrow>
               (case add_license key (Some owner_name) (Some duration_plan) expiry max_acts now d of
                  Inl e \<Rightarrow> Inl e
                | Inr (lic, d') \<Rightarrow>
                    Inr ((license_key lic, expires_at lic, max_activations lic), d'))))"

text \<open>\<open>create_license\<close> of \<open>cli/create_license_cli.py\<close>: no admin token, a separate
  \<open>plan\<close> label, and \<open>ValueError\<close> for an unknown duration.\<close>

definition cli_create_license ::
  "datetime \<Rightarrow> string \<Rightarrow> string \<Rightarrow> string \<Rightarrow> string \<Rightarrow> int \<Rightarrow> db \<Rightarrow> error + (License \<times> db)" where
  "cli_create_license now key owner_name plan_name duration_plan max_acts d =
     (case (if duration_plan = ''1month'' then Inr (Some (now + days 30))
            else if duration_plan = ''3months'' then Inr (Some (now + days 90))
            else if duration_plan = ''6months'' then Inr (Some (now + days 180))
            else if duration_plan = ''lifetime'' then Inr None
            else Inl (ValueError ''Unknown duration_plan'')) of
        Inl e \<Rightarrow> Inl e
      | Inr expiry \<Rightarrow> add_license key (Some owner_name) (Some plan_name) expiry max_acts now d)"

text \<open>
  \<open>admin_create_license\<close> of \<open>main.py\<close>. The expiry is stored as the ISO string that the
  parameter \<open>isoformat\<close> renders; an unknown duration falls into the last branch, commented
  \<open>unknown -> no expiry\<close>. \<open>supabase_create_license_row\<close> appends the row.
\<close>

definition supabase_create_license_row ::
  "string \<Rightarrow> string \<Rightarrow> string \<Rightarrow> string option \<Rightarrow> int \<Rightarrow> datetime \<Rightarrow> supabase \<Rightarrow> sb_license \<times> supabase" where
  "supabase_create_license_row k own pl expiry max_acts now d =
     (let row = \<lparr>sb_id = next_id (map sb_id (licenses d)), sb_key = k, sb_owner = Some own,
                 sb_plan = Some pl, sb_expires_at = expiry, sb_max_activations = Value max_acts,
                 sb_active = Value True, sb_created_at = now\<rparr>
      in (row, d\<lparr>licenses := licenses d @ [row]\<rparr>))"

definition admin_create_license ::
  "(datetime \<Rightarrow> string) \<Rightarrow> string \<Rightarrow> datetime \<Rightarrow> string \<Rightarrow> string \<Rightarrow> string \<Rightarrow> string \<Rightarrow> int
     \<Rightarrow> string option \<Rightarrow> supabase
     \<Rightarrow> error + ((string \<times> string \<times> string option) \<times> supabase)" where
  "admin_create_license isoformat ADMIN_TOKEN now key owner_name plan_name duration_plan max_acts
       x_admin_token d =
     (case verify_admin ADMIN_TOKEN x_admin_token of
        Some e \<Rightarrow> Inl e
      | None \<Rightarrow>
          let expiry =
                (if duration_plan = ''1month'' then Some (isoformat (now + days 30))
                 else if duration_plan = ''3months'' then Some (isoformat (now + days 90))
                 else if duration_plan = ''6months'' then Some (isoformat (now + days 180))
                 else if duration_plan = ''lifetime'' then None
                 else None)
          in (case supabase_create_license_row key owner_name plan_name expiry max_acts now d of
                (row, d') \<Rightarrow> Inr ((sb_key row, owner_name, expiry), d')))"

section \<open>Sequences of requests\<close>

text \<open>One call of the endpoint: the clock readings, the body and the request object.\<close>

record call =
  call_now :: datetime
  call_issued :: int
  call_payload :: activate_payload
  call_request :: "Request option"

text \<open>The database after one call; a call that raises has written nothing.\<close>

definition activate_step :: "bool \<Rightarrow> string \<Rightarrow> call \<Rightarrow> db \<Rightarrow> db" where
  "activate_step tz_aware secret c d =
     (case activate_license tz_aware secret (call_now c) (call_issued c) (call_payload c) (call_request c) d of
        Inl e \<Rightarrow> d
      | Inr (resp, d') \<Rightarrow> d')"

text \<open>Calls served one after another.\<close>

definition run_calls :: "bool \<Rightarrow> string \<Rightarrow> call list \<Rightarrow> db \<Rightarrow> db" where
  "run_calls tz_aware secret cs d = fold (activate_step tz_aware secret) cs d"

text \<open>At most one Activation row per license and device id.\<close>

definition one_row_per_device :: "'l store \<Rightarrow> bool" where
  "one_row_per_device d = distinct (map (\<lambda>a. (license_id a, device_id a)) (activations d))"

text \<open>The same for the rows that name a device: those whose device id is not the
  \<open>unknown\<close> that line 73 stores for a request without device id.\<close>

definition one_row_per_named_device :: "'l store \<Rightarrow> bool" where
  "one_row_per_named_device d =
     distinct (filter (\<lambda>r. snd r \<noteq> Some ''unknown'')
                 (map (\<lambda>a. (license_id a, device_id a)) (activations d)))"

definition has_device :: "call \<Rightarrow> bool" where
  "has_device c = (case req_device_id (call_payload c) of None \<Rightarrow> False | Some x \<Rightarrow> x \<noteq> [])"

text \<open>A store in which every negative quota is replaced by 0.\<close>

definition unlimit :: "License \<Rightarrow> License" where
  "unlimit l = (if max_act_of (max_activations l) < 0 then l\<lparr>max_activations := Some 0\<rparr> else l)"

definition unlimit_all :: "db \<Rightarrow> db" where
  "unlimit_all d = d\<lparr>licenses := map unlimit (licenses d)\<rparr>"

text \<open>The same for the Supabase store, where the quota is read with
  \<open>lic.get("max_activations", 1) or 0\<close>.\<close>

definition sb_unlimit :: "sb_license \<Rightarrow> sb_license" where
  "sb_unlimit l =
     (if max_act_of (get_or (sb_max_activations l) (Some 1)) < 0
      then l\<lparr>sb_max_activations := Value 0\<rparr> else l)"

definition sb_unlimit_all :: "supabase \<Rightarrow> supabase" where
  "sb_unlimit_all d = d\<lparr>licenses := map sb_unlimit (licenses d)\<rparr>"

section \<open>Requests served concurrently\<close>

text \<open>
  The endpoint takes no lock and opens no serialisable transaction: each request first reads
  (the license, the existing activation, the count) and later commits its write. Between the
  two, another request may run. \<open>activate_read\<close> is \<open>activate_license\<close> up to the point
  where it would write, returning the answer and the write it is about to commit;
  \<open>commit_write\<close> is that write.
\<close>

datatype pending_write =
    NoWrite
  | TouchRow Activation
  | InsertRow nat string "string option" "string option"

definition activate_read ::
  "bool \<Rightarrow> string \<Rightarrow> datetime \<Rightarrow> int \<Rightarrow> activate_payload \<Rightarrow> Request option \<Rightarrow> db
     \<Rightarrow> (error + datetime response) \<times> pending_write" where
  "activate_read tz_aware ACTIVATION_SECRET now issued payload request d =
     (case req_license_key payload of
        None \<Rightarrow> (Inl (HTTPException 400 ''license_key required''), NoWrite)
      | Some k \<Rightarrow>
          if k = [] then (Inl (HTTPException 400 ''license_key required''), NoWrite)
          else
            (case first_license d k of
               None \<Rightarrow> (Inr (refusal ''License not found''), NoWrite)
             | Some lic \<Rightarrow>
                 if active lic \<noteq> Some True then (Inr (refusal ''License disabled''), NoWrite)
                 else
                   (case expired tz_aware lic now of
                      Inl e \<Rightarrow> (Inl e, NoWrite)
                    | Inr past \<Rightarrow>
                        if past then (Inr (refusal ''License expired''), NoWrite)
                        else
                          (case existing_activation d (lic_id lic) (req_device_id payload) of
                             Some existing \<Rightarrow>
                               (Inr (granted ''OK''
                                       (sign_activation ACTIVATION_SECRET (license_key lic)
                                          (req_device_id payload) issued)
                                       (license_summary lic)),
                                TouchRow existing)
                           | None \<Rightarrow>
                               let act_count = count_activations d (lic_id lic);
                                   max_act = max_act_of (max_activations lic)
                               in if max_act > 0 \<and> int act_count \<ge> max_act
                                  then (Inr (refusal ''Activation limit reached''), NoWrite)
                                  else
                                    (Inr (granted ''Activated''
                                            (sign_activation ACTIVATION_SECRET (license_key lic)
                                               (req_device_id payload) issued)
                                            (license_summary lic)),
                                     InsertRow (lic_id lic) (or_unknown (req_device_id payload))
                                       (req_device_fingerprint payload) (request_ip request))))))"

definition commit_write :: "pending_write \<Rightarrow> datetime \<Rightarrow> db \<Rightarrow> db" where
  "commit_write w now d =
     (case w of
        NoWrite \<Rightarrow> d
      | TouchRow existing \<Rightarrow> touch_activation existing now d
      | InsertRow lid dev fingerprint ip_addr \<Rightarrow> add_activation lid dev fingerprint ip_addr now d)"

text \<open>A request in flight: received, past its reads with the write still to commit, or
  answered.\<close>

datatype task =
    Received call
  | Decided call "error + datetime response" pending_write
  | Answered "error + datetime response"

fun advance :: "bool \<Rightarrow> string \<Rightarrow> task \<Rightarrow> db \<Rightarrow> task \<times> db" where
  "advance tz_aware secret (Received c) d =
     (case activate_read tz_aware secret (call_now c) (call_issued c) (call_payload c)
             (call_request c) d of
        (answer, w) \<Rightarrow> (Decided c answer w, d))"
| "advance tz_aware secret (Decided c answer w) d =
     (Answered answer, commit_write w (call_now c) d)"
| "advance tz_aware secret (Answered answer) d = (Answered answer, d)"

text \<open>A schedule names, step by step, the request that moves next.\<close>

fun run_schedule ::
  "bool \<Rightarrow> string \<Rightarrow> nat list \<Rightarrow> task list \<times> db \<Rightarrow> task list \<times> db" where
  "run_schedule tz_aware secret [] conf = conf"
| "run_schedule tz_aware secret (i # sched) (ts, d) =
     (if i < length ts
      then (case advance tz_aware secret (ts ! i) d of
              (t', d') \<Rightarrow> run_schedule tz_aware secret sched (ts[i := t'], d'))
      else run_schedule tz_aware secret sched (ts, d))"

definition admitted :: "task \<Rightarrow> bool" where
  "admitted t = (case t of Answered (Inr resp) \<Rightarrow> valid resp | _ \<Rightarrow> False)"

text \<open>Calls of \<open>api_check\<close> served one after another.\<close>

record check_call =
  chk_now :: datetime
  chk_issued :: int
  chk_request :: CheckRequest

definition run_checks ::
  "(string \<Rightarrow> datetime \<Rightarrow> bool option) \<Rightarrow> string \<Rightarrow> check_call list \<Rightarrow> supabase \<Rightarrow> supabase" where
  "run_checks iso_before secret cs d =
     fold (\<lambda>c s. snd (api_check iso_before secret (chk_now c) (chk_issued c) (chk_request c) s)) cs d"

section \<open>The duration plans as the specification states them\<close>

text \<open>
  The specification of \<open>createLicense\<close>: \<open>lifetime\<close>, \<open>1month\<close>, \<open>3months\<close> and
  \<open>6months\<close> give no expiry, 30, 90 and 180 days from now; any other plan is the caller
  error UNKNOWN_PLAN, here \<open>None\<close>.
\<close>

definition spec_expiry :: "datetime \<Rightarrow> string \<Rightarrow> datetime option option" where
  "spec_expiry now duration_plan =
     (if duration_plan = ''lifetime'' then Some None
      else if duration_plan = ''1month'' then Some (Some (now + days 30))
      else if duration_plan = ''3months'' then Some (Some (now + days 90))
      else if duration_plan = ''6months'' then Some (Some (now + days 180))
      else None)"

section \<open>The URL-safe alphabet\<close>

definition urlsafe_alphabet :: string where
  "urlsafe_alphabet = ''ABCDEFGHIJKLMNOPQRSTUVWXYZabcdefghijklmnopqrstuvwxyz0123456789-_''"

section \<open>Stored device ids\<close>

text \<open>Every Activation row names a device by a non-empty string.\<close>

definition devices_named :: "'l store \<Rightarrow> bool" where
  "devices_named d = (\<forall>a\<in>set (activations d). \<exists>x. device_id a = Some x \<and> x \<noteq> [])"


section \<open>Example stores\<close>

definition lic1 :: License where
  "lic1 = \<lparr>lic_id = 1, license_key = ''KEY-1'', owner = Some ''alice'', plan = Some ''lifetime'',
            expires_at = None, max_activations = Some 1, active = Some True, lic_created_at = 0\<rparr>"

definition act_A :: Activation where
  "act_A = \<lparr>act_id = 1, license_id = 1, device_id = Some ''A'', device_fingerprint = None,
             ip = None, last_seen = 5, act_created_at = 5\<rparr>"

text \<open>One license with quota 1 and no activation yet, and the same license with its quota used
  up by device \<open>A\<close>.\<close>

definition db_fresh :: db where
  "db_fresh = \<lparr>licenses = [lic1], activations = []\<rparr>"

definition db_full :: db where
  "db_full = \<lparr>licenses = [lic1], activations = [act_A]\<rparr>"

definition req :: "string \<Rightarrow> string option \<Rightarrow> activate_payload" where
  "req k dev = \<lparr>req_license_key = Some k, req_device_id = dev, req_device_fingerprint = None\<rparr>"

definition chk :: "string \<Rightarrow> string option \<Rightarrow> CheckRequest" where
  "chk k dev = \<lparr>chk_license_key = k, chk_device_id = dev, chk_device_fingerprint = None\<rparr>"

text \<open>A revoked license that has also expired and has free quota, in both stores.\<close>

definition lic_revoked :: License where
  "lic_revoked = \<lparr>lic_id = 2, license_key = ''KEY-2'', owner = None, plan = Some ''1month'',
            expires_at = Some 3, max_activations = Some 5, active = Some False, lic_created_at = 0\<rparr>"

definition db_revoked :: db where
  "db_revoked = \<lparr>licenses = [lic1, lic_revoked], activations = [act_A]\<rparr>"

definition sb_revoked :: sb_license where
  "sb_revoked = \<lparr>sb_id = 2, sb_key = ''KEY-2'', sb_owner = None, sb_plan = Some ''1month'',
            sb_expires_at = Some ''2001-01-01T00:00:00'', sb_max_activations = Value 5,
            sb_active = Value False, sb_created_at = 0\<rparr>"

definition supabase_revoked :: supabase where
  "supabase_revoked = \<lparr>licenses = [sb_revoked], activations = []\<rparr>"

text \<open>Two requests for the last free seat of \<open>lic1\<close>, from devices \<open>A\<close> and \<open>B\<close>, and two
  requests without a device id.\<close>

definition call_A :: call where
  "call_A = \<lparr>call_now = 10, call_issued = 10, call_payload = req ''KEY-1'' (Some ''A''),
              call_request = None\<rparr>"

definition call_B :: call where
  "call_B = \<lparr>call_now = 11, call_issued = 11, call_payload = req ''KEY-1'' (Some ''B''),
              call_request = None\<rparr>"

text \<open>A license without quota (\<open>max_activations = 0\<close>) and one with a negative quota that
  already has two activations.\<close>

definition lic_open :: License where
  "lic_open = \<lparr>lic_id = 3, license_key = ''KEY-3'', owner = None, plan = None,
            expires_at = None, max_activations = Some 0, active = Some True, lic_created_at = 0\<rparr>"

definition db_open :: db where
  "db_open = \<lparr>licenses = [lic_open], activations = []\<rparr>"

definition call_anon :: "datetime \<Rightarrow> call" where
  "call_anon t = \<lparr>call_now = t, call_issued = t, call_payload = req ''KEY-3'' None,
                  call_request = None\<rparr>"

definition call_named :: "string \<Rightarrow> datetime \<Rightarrow> call" where
  "call_named dev t = \<lparr>call_now = t, call_issued = t, call_payload = req ''KEY-3'' (Some dev),
                       call_request = None\<rparr>"

definition lic_negative :: License where
  "lic_negative = \<lparr>lic_id = 4, license_key = ''KEY-4'', owner = None, plan = None,
            expires_at = None, max_activations = Some (- 1), active = Some True, lic_created_at = 0\<rparr>"

definition db_negative :: db where
  "db_negative = \<lparr>licenses = [lic_negative],
     activations = [act_A\<lparr>license_id := 4\<rparr>, act_A\<lparr>act_id := 2, license_id := 4, device_id := Some ''B''\<rparr>]\<rparr>"

definition sb_negative :: sb_license where
  "sb_negative = \<lparr>sb_id = 4, sb_key = ''KEY-4'', sb_owner = None, sb_plan = None,
            sb_expires_at = None, sb_max_activations = Value (- 1),
            sb_active = Value True, sb_created_at = 0\<rparr>"

definition supabase_negative :: supabase where
  "supabase_negative = \<lparr>licenses = [sb_negative], activations = activations db_negative\<rparr>"

text \<open>The Supabase store with one license of quota 1, and two checks for it.\<close>

definition sb_quota :: sb_license where
  "sb_quota = \<lparr>sb_id = 1, sb_key = ''KEY-1'', sb_owner = Some ''alice'', sb_plan = Some ''lifetime'',
            sb_expires_at = None, sb_max_activations = Value 1,
            sb_active = Value True, sb_created_at = 0\<rparr>"

definition supabase_quota :: supabase where
  "supabase_quota = \<lparr>licenses = [sb_quota], activations = []\<rparr>"

definition check_A :: check_call where
  "check_A = \<lparr>chk_now = 10, chk_issued = 10, chk_request = chk ''KEY-1'' (Some ''A'')\<rparr>"

definition check_B :: check_call where
  "check_B = \<lparr>chk_now = 11, chk_issued = 11, chk_request = chk ''KEY-1'' (Some ''B'')\<rparr>"

text \<open>A license that expires at time 100 and has its one seat taken by device \<open>A\<close>.\<close>

definition lic_dated :: License where
  "lic_dated = \<lparr>lic_id = 5, license_key = ''KEY-5'', owner = None, plan = Some ''1month'',
            expires_at = Some 100, max_activations = Some 1, active = Some True, lic_created_at = 0\<rparr>"

definition db_dated :: db where
  "db_dated = \<lparr>licenses = [lic_dated], activations = [act_A\<lparr>license_id := 5\<rparr>]\<rparr>"

definition call_dated :: call where
  "call_dated = \<lparr>call_now = 10, call_issued = 10, call_payload = req ''KEY-5'' (Some ''A''),
                  call_request = None\<rparr>"

section \<open>Base64: decoding undoes encoding\<close>

lemma table_length: "length table_b2a_base64 = 64"
  by (simp add: table_b2a_base64_def)

lemma table_distinct: "distinct table_b2a_base64"
  by (simp add: table_b2a_base64_def)

lemma table_excludes:
  "CHR ''='' \<notin> set table_b2a_base64" "CHR ''-'' \<notin> set table_b2a_base64"
  "CHR ''_'' \<notin> set table_b2a_base64"
  by (simp_all add: table_b2a_base64_def)

lemma b2a_char_in_table: "0 \<le> i \<Longrightarrow> i < 64 \<Longrightarrow> b2a_char i \<in> set table_b2a_base64"
  by (simp add: b2a_char_def table_length)

lemma a2b_b2a: 
  assumes "0 \<le> i" and "i < 64"
  shows "table_a2b_base64 (b2a_char i) = Some i"
proof -
  have len: "length table_b2a_base64 = length [0..63::int]" by (simp add: table_length)
  have "map_of (zip table_b2a_base64 [0..63]) (table_b2a_base64 ! nat i) = Some ([0..63] ! nat i)"
    using assms by (intro map_of_zip_nth[OF len table_distinct]) simp
  with assms show ?thesis by (simp add: table_a2b_base64_def b2a_char_def nth_upto)
qed

lemma b2a_char_not_pad: "0 \<le> i \<Longrightarrow> i < 64 \<Longrightarrow> b2a_char i \<noteq> CHR ''=''"
  using b2a_char_in_table table_excludes(1) by metis

lemma of_char_int_range: "0 \<le> (of_char c :: int)" "(of_char c :: int) < 256"
proof -
  have "(of_char c :: int) mod 256 = of_char c" by simp
  then show "0 \<le> (of_char c :: int)" "(of_char c :: int) < 256"
    by (metis pos_mod_sign zero_less_numeral, metis pos_mod_bound zero_less_numeral)
qed

lemma div_digit: fixes q r b :: int shows "0 \<le> r \<Longrightarrow> r < b \<Longrightarrow> (q * b + r) div b = q"
  by (simp add: div_pos_pos_trivial)

lemma mod_digit: fixes q r b :: int shows "0 \<le> r \<Longrightarrow> r < b \<Longrightarrow> (q * b + r) mod b = r"
  by (simp add: mod_pos_pos_trivial)

lemma byte_div16: fixes B :: int assumes "0 \<le> B" "B < 256" shows "0 \<le> B div 16" "B div 16 < 16"
  using assms by (simp_all add: pos_imp_zdiv_nonneg_iff div_less_iff_less_mult zdiv_mono1)

lemma byte_div64: fixes B :: int assumes "0 \<le> B" "B < 256" shows "0 \<le> B div 64" "B div 64 < 4"
  using assms by (simp_all add: pos_imp_zdiv_nonneg_iff div_less_iff_less_mult zdiv_mono1)

lemma byte_div4: fixes B :: int assumes "0 \<le> B" "B < 256" shows "0 \<le> B div 4" "B div 4 < 64"
  using assms by (simp_all add: pos_imp_zdiv_nonneg_iff div_less_iff_less_mult zdiv_mono1)

lemma mod_range: fixes x :: int shows "0 \<le> x mod 4" "x mod 4 < 4" "0 \<le> x mod 16" "x mod 16 < 16"
  "0 \<le> x mod 64" "x mod 64 < 64"
  by (rule pos_mod_sign pos_mod_bound, simp)+

lemma digits_4_16:
  fixes x y :: int
  assumes "0 \<le> x" and "x < 4" and "0 \<le> y" and "y < 16"
  shows "0 \<le> x * 16 + y" and "x * 16 + y < 64"
  using assms by linarith+

lemma digits_16_4:
  fixes x y :: int
  assumes "0 \<le> x" and "x < 16" and "0 \<le> y" and "y < 4"
  shows "0 \<le> x * 4 + y" and "x * 4 + y < 64"
  using assms by linarith+

lemma digit_alone:
  fixes x :: int
  shows "0 \<le> x \<Longrightarrow> x < 4 \<Longrightarrow> 0 \<le> x * 16 \<and> x * 16 < 64"
    and "0 \<le> x \<Longrightarrow> x < 16 \<Longrightarrow> 0 \<le> x * 4 \<and> x * 4 < 64"
  by linarith+

text \<open>The four sextets of a group are indices into the table.\<close>

lemma sextet_ranges:
  "0 \<le> (of_char a :: int) div 4" "(of_char a :: int) div 4 < 64"
  "0 \<le> (of_char a :: int) mod 4 * 16 + of_char b div 16"
  "(of_char a :: int) mod 4 * 16 + of_char b div 16 < 64"
  "0 \<le> (of_char b :: int) mod 16 * 4 + of_char c div 64"
  "(of_char b :: int) mod 16 * 4 + of_char c div 64 < 64"
  "0 \<le> (of_char c :: int) mod 64" "(of_char c :: int) mod 64 < 64"
  "0 \<le> (of_char a :: int) mod 4 * 16" "(of_char a :: int) mod 4 * 16 < 64"
  "0 \<le> (of_char b :: int) mod 16 * 4" "(of_char b :: int) mod 16 * 4 < 64"
proof -
  note b16 = byte_div16[OF of_char_int_range, of b]
  note c64 = byte_div64[OF of_char_int_range, of c]
  show "0 \<le> (of_char a :: int) div 4" "(of_char a :: int) div 4 < 64"
    by (rule byte_div4[OF of_char_int_range])+
  show "0 \<le> (of_char a :: int) mod 4 * 16 + of_char b div 16"
    "(of_char a :: int) mod 4 * 16 + of_char b div 16 < 64"
    by (rule digits_4_16[OF mod_range(1,2) b16])+
  show "0 \<le> (of_char b :: int) mod 16 * 4 + of_char c div 64"
    "(of_char b :: int) mod 16 * 4 + of_char c div 64 < 64"
    by (rule digits_16_4[OF mod_range(3,4) c64])+
  show "0 \<le> (of_char c :: int) mod 64" "(of_char c :: int) mod 64 < 64"
    by (rule mod_range)+
  show "0 \<le> (of_char a :: int) mod 4 * 16" "(of_char a :: int) mod 4 * 16 < 64"
    using digit_alone(1)[OF mod_range(1,2), of "of_char a"] by blast+
  show "0 \<le> (of_char b :: int) mod 16 * 4" "(of_char b :: int) mod 16 * 4 < 64"
    using digit_alone(2)[OF mod_range(3,4), of "of_char b"] by blast+
qed

text \<open>Reassembling the three bytes from the sextets, as the decoder does.\<close>

lemma rejoin: fixes x :: int shows "x div 4 * 4 + x mod 4 = x" "x div 16 * 16 + x mod 16 = x"
  "x div 64 * 64 + x mod 64 = x"
  by simp_all

lemma reassemble:
  fixes a b c :: char
  defines "s0 \<equiv> (of_char a :: int) div 4"
    and "s1 \<equiv> (of_char a :: int) mod 4 * 16 + of_char b div 16"
    and "s2 \<equiv> (of_char b :: int) mod 16 * 4 + of_char c div 64"
    and "s3 \<equiv> (of_char c :: int) mod 64"
  shows "char_of (s0 * 4 + s1 div 16) = a"
    and "char_of (s1 mod 16 * 16 + s2 div 4) = b"
    and "char_of (s2 mod 4 * 64 + s3) = c"
proof -
  note b16 = byte_div16[OF of_char_int_range, of b]
  note c64 = byte_div64[OF of_char_int_range, of c]
  have s1: "s1 div 16 = of_char a mod 4" "s1 mod 16 = of_char b div 16"
    unfolding s1_def by (rule div_digit[OF b16] mod_digit[OF b16])+
  have s2: "s2 div 4 = of_char b mod 16" "s2 mod 4 = of_char c div 64"
    unfolding s2_def by (rule div_digit[OF c64] mod_digit[OF c64])+
  show "char_of (s0 * 4 + s1 div 16) = a"
    by (simp only: s1 s0_def rejoin char_of_char)
  show "char_of (s1 mod 16 * 16 + s2 div 4) = b"
    by (simp only: s1 s2 rejoin char_of_char)
  show "char_of (s2 mod 4 * 64 + s3) = c"
    by (simp only: s2 s3_def rejoin char_of_char)
qed

lemma reassemble_tail:
  fixes a b :: char
  defines "s0 \<equiv> (of_char a :: int) div 4"
    and "s1 \<equiv> (of_char a :: int) mod 4 * 16 + of_char b div 16"
    and "t1 \<equiv> (of_char a :: int) mod 4 * 16"
    and "t2 \<equiv> (of_char b :: int) mod 16 * 4"
  shows "char_of (s0 * 4 + t1 div 16) = a"
    and "char_of (s1 mod 16 * 16 + t2 div 4) = b"
proof -
  note b16 = byte_div16[OF of_char_int_range, of b]
  have s1: "s1 mod 16 = of_char b div 16"
    unfolding s1_def by (rule mod_digit[OF b16])
  have t: "t1 div 16 = of_char a mod 4" "t2 div 4 = of_char b mod 16"
    unfolding t1_def t2_def by simp_all
  show "char_of (s0 * 4 + t1 div 16) = a"
    by (simp only: t s0_def rejoin char_of_char)
  show "char_of (s1 mod 16 * 16 + t2 div 4) = b"
    by (simp only: s1 t rejoin char_of_char)
qed

lemma a2b_step:
  assumes "0 \<le> i" and "i < 64"
  shows "a2b_loop quad_pos leftchar pads out (b2a_char i # cs) =
     (if quad_pos = 0 then a2b_loop 1 i 0 out cs
      else if quad_pos = 1 then
        a2b_loop 2 (i mod 16) 0 (out @ [char_of (leftchar * 4 + i div 16)]) cs
      else if quad_pos = 2 then
        a2b_loop 3 (i mod 4) 0 (out @ [char_of (leftchar * 16 + i div 4)]) cs
      else a2b_loop 0 0 0 (out @ [char_of (leftchar * 64 + i)]) cs)"
  using a2b_b2a[OF assms] b2a_char_not_pad[OF assms] by simp

lemma a2b_loop_b2a: "a2b_loop 0 0 0 out (b2a_base64 s) = Inr (out @ s)"
proof (induction s arbitrary: out rule: b2a_base64.induct)
  case (1 a b c r)
  define s0 where "s0 = (of_char a :: int) div 4"
  define s1 where "s1 = (of_char a :: int) mod 4 * 16 + of_char b div 16"
  define s2 where "s2 = (of_char b :: int) mod 16 * 4 + of_char c div 64"
  define s3 where "s3 = (of_char c :: int) mod 64"
  have rg: "0 \<le> s0" "s0 < 64" "0 \<le> s1" "s1 < 64" "0 \<le> s2" "s2 < 64" "0 \<le> s3" "s3 < 64"
    unfolding s0_def s1_def s2_def s3_def by (rule sextet_ranges)+
  have bytes: "char_of (s0 * 4 + s1 div 16) = a" "char_of (s1 mod 16 * 16 + s2 div 4) = b"
    "char_of (s2 mod 4 * 64 + s3) = c"
    unfolding s0_def s1_def s2_def s3_def by (rule reassemble)+
  have "b2a_base64 (a # b # c # r)
      = b2a_char s0 # b2a_char s1 # b2a_char s2 # b2a_char s3 # b2a_base64 r"
    by (simp add: s0_def s1_def s2_def s3_def)
  then have "a2b_loop 0 0 0 out (b2a_base64 (a # b # c # r))
      = a2b_loop 0 0 0 (out @ [a, b, c]) (b2a_base64 r)"
    by (simp add: a2b_step rg bytes del: a2b_loop.simps)
  then show ?case by (simp add: "1.IH")
next
  case (2 a b)
  define s0 where "s0 = (of_char a :: int) div 4"
  define s1 where "s1 = (of_char a :: int) mod 4 * 16 + of_char b div 16"
  define t2 where "t2 = (of_char b :: int) mod 16 * 4"
  have rg: "0 \<le> s0" "s0 < 64" "0 \<le> s1" "s1 < 64" "0 \<le> t2" "t2 < 64"
    unfolding s0_def s1_def t2_def by (rule sextet_ranges)+
  have bytes: "char_of (s0 * 4 + s1 div 16) = a" "char_of (s1 mod 16 * 16 + t2 div 4) = b"
    unfolding s0_def s1_def t2_def by (rule reassemble reassemble_tail)+
  have "b2a_base64 [a, b] = [b2a_char s0, b2a_char s1, b2a_char t2, CHR ''='']"
    by (simp add: s0_def s1_def t2_def)
  then have "a2b_loop 0 0 0 out (b2a_base64 [a, b])
      = a2b_loop 3 (t2 mod 4) 0 (out @ [a, b]) [CHR ''='']"
    by (simp add: a2b_step rg bytes del: a2b_loop.simps)
  then show ?case by simp
next
  case (3 a)
  define s0 where "s0 = (of_char a :: int) div 4"
  define t1 where "t1 = (of_char a :: int) mod 4 * 16"
  have rg: "0 \<le> s0" "s0 < 64" "0 \<le> t1" "t1 < 64"
    unfolding s0_def t1_def by (rule sextet_ranges)+
  have bytes: "char_of (s0 * 4 + t1 div 16) = a"
    unfolding s0_def t1_def by (rule reassemble_tail)
  have "b2a_base64 [a] = [b2a_char s0, b2a_char t1, CHR ''='', CHR ''='']"
    by (simp add: s0_def t1_def)
  then have "a2b_loop 0 0 0 out (b2a_base64 [a])
      = a2b_loop 2 (t1 mod 16) 0 (out @ [a]) [CHR ''='', CHR ''='']"
    by (simp add: a2b_step rg bytes del: a2b_loop.simps)
  then show ?case by simp
next
  case 4
  show ?case by simp
qed

lemma b2a_base64_chars: "set (b2a_base64 s) \<subseteq> set table_b2a_base64 \<union> {CHR ''=''}"
  by (induction s rule: b2a_base64.induct) (simp_all add: b2a_char_in_table sextet_ranges)

lemma translation_inverse:
  "c \<in> set table_b2a_base64 \<union> {CHR ''=''}
     \<Longrightarrow> urlsafe_decode_translation (urlsafe_encode_translation c) = c"
  using table_excludes
  by (auto simp: urlsafe_decode_translation_def urlsafe_encode_translation_def)

lemma urlsafe_b64_roundtrip: "urlsafe_b64decode (urlsafe_b64encode s) = Inr s"
proof -
  have "map urlsafe_decode_translation (map urlsafe_encode_translation (b2a_base64 s))
      = b2a_base64 s"
    using b2a_base64_chars[of s] by (simp add: map_idI translation_inverse subset_iff)
  then show ?thesis
    using a2b_loop_b2a[of "[]" s]
    by (simp add: urlsafe_b64decode_def urlsafe_b64encode_def a2b_base64_def)
qed

section \<open>Digests have 32 bytes\<close>

lemma digest_length: "length (concat (map be32_bytes (digest_words h))) = 32"
  by (cases h rule: digest_words.cases) (simp add: be32_bytes_def)

lemma sha256_length: "length (sha256 m) = 32"
  by (simp add: sha256_def digest_length)

lemma hmac_sha256_length: "length (hmac_sha256 key msg) = 32"
  by (simp add: hmac_sha256_def Let_def sha256_length)

section \<open>Splitting at the last separator\<close>

lemma rsplit1_last:
  assumes "sep \<notin> set s"
  shows "rsplit1 sep (p @ sep # s) = [p, s]"
proof -
  have other: "x \<noteq> sep" if "x \<in> set (rev s)" for x
    using that assms by auto
  have "takeWhile (\<lambda>c. c \<noteq> sep) (rev s @ sep # rev p)
      = rev s @ takeWhile (\<lambda>c. c \<noteq> sep) (sep # rev p)"
    by (rule takeWhile_append2) (rule other)
  then have "takeWhile (\<lambda>c. c \<noteq> sep) (rev s @ sep # rev p) = rev s"
    by simp
  moreover have "dropWhile (\<lambda>c. c \<noteq> sep) (rev s @ sep # rev p)
      = dropWhile (\<lambda>c. c \<noteq> sep) (sep # rev p)"
    by (rule dropWhile_append2) (rule other)
  then have "dropWhile (\<lambda>c. c \<noteq> sep) (rev s @ sep # rev p) = sep # rev p"
    by simp
  ultimately show ?thesis by (simp add: rsplit1_def)
qed

lemma rsplit1_none: "sep \<notin> set raw \<Longrightarrow> rsplit1 sep raw = [raw]"
  by (simp add: rsplit1_def)

text \<open>Every byte string with a separator splits into two parts that rebuild it, the second
  free of the separator.\<close>

lemma rsplit1_some:
  assumes "sep \<in> set raw"
  shows "\<exists>p s. rsplit1 sep raw = [p, s] \<and> raw = p @ sep # s \<and> sep \<notin> set s"
proof -
  from assms obtain p s where "raw = p @ sep # s" "sep \<notin> set s"
    by (meson split_list_last)
  then show ?thesis using rsplit1_last[of sep s p] by blast
qed

section \<open>Signing, then verifying\<close>

lemma verify_try_sign:
  "verify_try secret (sign_activation secret k d t)
     = (case rsplit1 CHR ''~'' (activation_payload k d t @ ''~'' @ hmac_sha256 secret (activation_payload k d t)) of
          [payload, sig] \<Rightarrow> Inr (compare_digest (hmac_sha256 secret payload) sig)
        | _ \<Rightarrow> Inl (ValueError ''not enough values to unpack (expected 2, got 1)''))"
  by (simp add: verify_try_def sign_activation_def Let_def urlsafe_b64_roundtrip)

text \<open>The round trip succeeds exactly when the signature holds no byte \<open>0x7E\<close>: otherwise
  the last separator lies inside the signature, and what follows it is shorter than a digest.\<close>

lemma verify_sign_iff:
  "verify_activation_token secret (sign_activation secret k d t)
     = Inr (CHR ''~'' \<notin> set (hmac_sha256 secret (activation_payload k d t)))"
proof (cases "CHR ''~'' \<in> set (hmac_sha256 secret (activation_payload k d t))")
  case False
  then show ?thesis
    using rsplit1_last[of "CHR ''~''" "hmac_sha256 secret (activation_payload k d t)"
        "activation_payload k d t"]
    by (simp add: verify_activation_token_def verify_try_sign compare_digest_def)
next
  case True
  let ?P = "activation_payload k d t"
  let ?S = "hmac_sha256 secret ?P"
  from True obtain u v where uv: "?S = u @ CHR ''~'' # v" "CHR ''~'' \<notin> set v"
    by (meson split_list_last)
  have "length ?S = 32" by (rule hmac_sha256_length)
  with uv(1) have short: "length v \<noteq> 32" by simp
  have "?P @ ''~'' @ ?S = (?P @ ''~'' @ u) @ CHR ''~'' # v" using uv(1) by simp
  then have "rsplit1 CHR ''~'' (?P @ ''~'' @ ?S) = [?P @ ''~'' @ u, v]"
    using rsplit1_last[OF uv(2), of "?P @ ''~'' @ u"] by simp
  moreover have "hmac_sha256 secret (?P @ ''~'' @ u) \<noteq> v"
    using short hmac_sha256_length[of secret "?P @ ''~'' @ u"] by auto
  ultimately show ?thesis
    using True by (simp add: verify_activation_token_def verify_try_sign compare_digest_def)
qed

section \<open>A token that does not verify\<close>

lemma payload_examples:
  "activation_payload ''KEY-1'' (Some ''dev'') 1700000000 = ''KEY-1|dev|1700000000''"
  "activation_payload ''KEY-1'' (Some []) 0 = ''KEY-1||0''"
  "activation_payload ''KEY-1'' None (- 5) = ''KEY-1||-5''"
  by (simp_all add: activation_payload_def or_empty_def str_int_def digits.simps)

lemma payload_K_38: "activation_payload ''K'' None 38 = ''K||38''"
  by (simp add: activation_payload_def or_empty_def str_int_def digits.simps)

lemma hmac_K_38:
  "hmac_sha256 ''s'' ''K||38'' = [CHR 0x59, CHR 0xE3, CHR 0xA5, CHR 0xE8, CHR 0x7C, CHR 0x1F, CHR 0x34, CHR 0x2A, CHR 0xCF, CHR 0xBE, CHR 0xBF, CHR 0x2C, CHR 0x0C, CHR 0x95, CHR 0xE2, CHR 0x73, CHR 0x21, CHR 0x51, CHR 0x53, CHR 0x00, CHR 0x76, CHR 0xC0, CHR 0x3C, CHR 0x93, CHR 0x2E, CHR 0x3C, CHR 0xD2, CHR 0xB8, CHR 0x2B, CHR 0x7E, CHR 0x10, CHR 0x4F]"
  by code_simp

lemma token_K_38:
  "urlsafe_b64encode (''K||38'' @ ''~'' @ [CHR 0x59, CHR 0xE3, CHR 0xA5, CHR 0xE8, CHR 0x7C, CHR 0x1F, CHR 0x34, CHR 0x2A, CHR 0xCF, CHR 0xBE, CHR 0xBF, CHR 0x2C, CHR 0x0C, CHR 0x95, CHR 0xE2, CHR 0x73, CHR 0x21, CHR 0x51, CHR 0x53, CHR 0x00, CHR 0x76, CHR 0xC0, CHR 0x3C, CHR 0x93, CHR 0x2E, CHR 0x3C, CHR 0xD2, CHR 0xB8, CHR 0x2B, CHR 0x7E, CHR 0x10, CHR 0x4F]) = ''S3x8Mzh-WeOl6HwfNCrPvr8sDJXicyFRUwB2wDyTLjzSuCt-EE8=''"
  by code_simp

section \<open>The token codec\<close>

lemma urlsafe_table: "map urlsafe_encode_translation table_b2a_base64 = urlsafe_alphabet"
  by (simp add: table_b2a_base64_def urlsafe_alphabet_def urlsafe_encode_translation_def)

lemma urlsafe_b64encode_chars: "set (urlsafe_b64encode s) \<subseteq> set urlsafe_alphabet \<union> {CHR ''=''}"
proof -
  have "urlsafe_encode_translation ` set (b2a_base64 s)
      \<subseteq> urlsafe_encode_translation ` (set table_b2a_base64 \<union> {CHR ''=''})"
    using b2a_base64_chars[of s] by (rule image_mono)
  also have "\<dots> = set (map urlsafe_encode_translation table_b2a_base64) \<union> {CHR ''=''}"
    by (simp add: urlsafe_encode_translation_def)
  finally show ?thesis by (simp add: urlsafe_b64encode_def urlsafe_table)
qed

text \<open>
  Claim C9. The token is the URL-safe base64 encoding of one byte string: the payload
  \<open>licenseKey|deviceId-or-empty|t\<close> with \<open>t\<close> in decimal, the byte \<open>~\<close>, and the HMAC-SHA256
  of the payload under the secret, which has 32 bytes. Decoding the token gives that byte string
  back, and the token consists of characters of the URL-safe alphabet and \<open>=\<close> padding.
\<close>

theorem token_wire_format:
  "activation_payload k d t = k @ ''|'' @ (case d of None \<Rightarrow> [] | Some x \<Rightarrow> x) @ ''|'' @ str_int t
   \<and> sign_activation secret k d t
       = urlsafe_b64encode
           (activation_payload k d t @ [CHR ''~''] @ hmac_sha256 secret (activation_payload k d t))
   \<and> length (hmac_sha256 secret (activation_payload k d t)) = 32
   \<and> urlsafe_b64decode (sign_activation secret k d t)
       = Inr (activation_payload k d t @ [CHR ''~''] @ hmac_sha256 secret (activation_payload k d t))
   \<and> set (sign_activation secret k d t) \<subseteq> set urlsafe_alphabet \<union> {CHR ''=''}"
proof (intro conjI)
  show "activation_payload k d t
      = k @ ''|'' @ (case d of None \<Rightarrow> [] | Some x \<Rightarrow> x) @ ''|'' @ str_int t"
    by (simp add: activation_payload_def or_empty_def)
  show "sign_activation secret k d t
      = urlsafe_b64encode
          (activation_payload k d t @ [CHR ''~''] @ hmac_sha256 secret (activation_payload k d t))"
    by (simp add: sign_activation_def Let_def)
  then show "urlsafe_b64decode (sign_activation secret k d t)
      = Inr (activation_payload k d t @ [CHR ''~''] @ hmac_sha256 secret (activation_payload k d t))"
    by (simp only: urlsafe_b64_roundtrip)
  show "length (hmac_sha256 secret (activation_payload k d t)) = 32"
    by (rule hmac_sha256_length)
  show "set (sign_activation secret k d t) \<subseteq> set urlsafe_alphabet \<union> {CHR ''=''}"
    unfolding sign_activation_def Let_def by (rule urlsafe_b64encode_chars)
qed

text \<open>
  Claim C7. \<open>verify_activation_token\<close> returns a boolean for every input string and never an
  exception. It returns \<open>False\<close> whenever the input is malformed: when the base64 decoder
  rejects it, when the decoded bytes hold no separator \<open>~\<close>, when what follows the last
  separator is not 32 bytes long, and for the empty string.
\<close>

theorem verify_never_raises:
  "(\<exists>ok. verify_activation_token secret token = Inr ok)
   \<and> (urlsafe_b64decode token = Inl e \<longrightarrow> verify_activation_token secret token = Inr False)
   \<and> (urlsafe_b64decode token = Inr raw \<and> CHR ''~'' \<notin> set raw
        \<longrightarrow> verify_activation_token secret token = Inr False)
   \<and> (urlsafe_b64decode token = Inr raw \<and> rsplit1 CHR ''~'' raw = [p, sg] \<and> length sg \<noteq> 32
        \<longrightarrow> verify_activation_token secret token = Inr False)
   \<and> verify_activation_token secret [] = Inr False"
proof (intro conjI impI)
  show "\<exists>ok. verify_activation_token secret token = Inr ok"
    by (cases "verify_try secret token") (auto simp: verify_activation_token_def)
  show "verify_activation_token secret token = Inr False" if "urlsafe_b64decode token = Inl e"
    using that by (simp add: verify_activation_token_def verify_try_def)
  show "verify_activation_token secret token = Inr False"
    if "urlsafe_b64decode token = Inr raw \<and> CHR ''~'' \<notin> set raw"
    using that by (simp add: verify_activation_token_def verify_try_def rsplit1_none)
  show "verify_activation_token secret token = Inr False"
    if "urlsafe_b64decode token = Inr raw \<and> rsplit1 CHR ''~'' raw = [p, sg] \<and> length sg \<noteq> 32"
    using that hmac_sha256_length[of secret p]
    by (auto simp: verify_activation_token_def verify_try_def compare_digest_def)
  show "verify_activation_token secret [] = Inr False"
    by (simp add: verify_activation_token_def verify_try_def urlsafe_b64decode_def a2b_base64_def
        rsplit1_def)
qed

lemma decode_examples:
  "urlsafe_b64decode ''A'' = Inl (BinasciiError ''Invalid base64-encoded string'')"
  "urlsafe_b64decode ''QUJD'' = Inr ''ABC''"
  "urlsafe_b64decode ''S3x8Mzh-'' = Inr ''K||38~''"
  "urlsafe_b64decode ''S3x8Mzh-WeOl6Hw'' = Inl (BinasciiError ''Incorrect padding'')"
  by code_simp+

theorem verify_never_raises_witness:
  "urlsafe_b64decode ''A'' = Inl (BinasciiError ''Invalid base64-encoded string'')
   \<and> verify_activation_token ''s'' ''A'' = Inr False
   \<and> urlsafe_b64decode ''S3x8Mzh-WeOl6Hw'' = Inl (BinasciiError ''Incorrect padding'')
   \<and> verify_activation_token ''s'' ''S3x8Mzh-WeOl6Hw'' = Inr False
   \<and> urlsafe_b64decode ''QUJD'' = Inr ''ABC''
   \<and> verify_activation_token ''s'' ''QUJD'' = Inr False
   \<and> urlsafe_b64decode ''S3x8Mzh-'' = Inr ''K||38~''
   \<and> rsplit1 CHR ''~'' ''K||38~'' = [''K||38'', []]
   \<and> verify_activation_token ''s'' ''S3x8Mzh-'' = Inr False"
  using verify_never_raises [where token = "''A''" and secret = "''s''"
      and e = "BinasciiError ''Invalid base64-encoded string''"]
    verify_never_raises [where token = "''S3x8Mzh-WeOl6Hw''" and secret = "''s''"
      and e = "BinasciiError ''Incorrect padding''"]
    verify_never_raises [where token = "''QUJD''" and secret = "''s''" and raw = "''ABC''"]
    verify_never_raises [where token = "''S3x8Mzh-''" and secret = "''s''" and raw = "''K||38~''"
      and p = "''K||38''" and sg = "[]"]
  by (simp add: decode_examples rsplit1_def)

text \<open>
  Claim C2 fails on the code. With the secret \<open>s\<close>, the license key \<open>K\<close>, no device id and
  the issuance time 38, the signature has the byte \<open>0x7E\<close> as its 30th byte. The token that
  \<open>sign_activation\<close> returns is the one below, and \<open>verify_activation_token\<close> returns
  \<open>False\<close> for it.
\<close>

theorem signed_token_fails_verification:
  "sign_activation ''s'' ''K'' None 38 = ''S3x8Mzh-WeOl6HwfNCrPvr8sDJXicyFRUwB2wDyTLjzSuCt-EE8=''
   \<and> verify_activation_token ''s'' ''S3x8Mzh-WeOl6HwfNCrPvr8sDJXicyFRUwB2wDyTLjzSuCt-EE8=''
       = Inr False"
proof -
  have tok: "sign_activation ''s'' ''K'' None 38
      = ''S3x8Mzh-WeOl6HwfNCrPvr8sDJXicyFRUwB2wDyTLjzSuCt-EE8=''"
    by (simp only: sign_activation_def Let_def payload_K_38 hmac_K_38 token_K_38)
  have "verify_activation_token ''s'' (sign_activation ''s'' ''K'' None 38) = Inr False"
    by (simp only: verify_sign_iff payload_K_38 hmac_K_38) simp
  with tok show ?thesis by simp
qed

section \<open>Properties of the store operations\<close>

lemma find_Some_mem: "find P xs = Some x \<Longrightarrow> x \<in> set xs \<and> P x"
  by (induction xs) (auto split: if_splits)

lemma find_eq_None_iff: "find P xs = None \<longleftrightarrow> (\<forall>x\<in>set xs. \<not> P x)"
  by (induction xs) auto

lemma length_touch [simp]:
  "length (activations (touch_activation e now d)) = length (activations d)"
  by (simp add: touch_activation_def)

lemma licenses_touch [simp]: "licenses (touch_activation e now d) = licenses d"
  by (simp add: touch_activation_def)

lemma count_touch [simp]:
  "count_activations (touch_activation e now d) lid = count_activations d lid"
proof -
  have same: "(\<lambda>a. license_id a = lid) \<circ> (\<lambda>a. if act_id a = act_id e then a\<lparr>last_seen := now\<rparr> else a)
      = (\<lambda>a. license_id a = lid)"
    by (auto simp: fun_eq_iff)
  show ?thesis by (simp add: count_activations_def touch_activation_def filter_map same)
qed

lemma one_row_touch [simp]:
  "one_row_per_device (touch_activation e now d) = one_row_per_device d"
proof -
  have same: "(\<lambda>a. (license_id a, device_id a)) \<circ> (\<lambda>a. if act_id a = act_id e then a\<lparr>last_seen := now\<rparr> else a)
      = (\<lambda>a. (license_id a, device_id a))"
    by (auto simp: fun_eq_iff)
  show ?thesis by (simp add: one_row_per_device_def touch_activation_def same)
qed

lemma licenses_add [simp]: "licenses (add_activation lid dev fp ipa now d) = licenses d"
  by (simp add: add_activation_def)

lemma count_add:
  "count_activations (add_activation lid dev fp ipa now d) lid'
     = count_activations d lid' + (if lid' = lid then 1 else 0)"
  by (simp add: add_activation_def count_activations_def)

lemma first_license_mem: "first_license d k = Some lic \<Longrightarrow> lic \<in> set (licenses d)"
  by (auto simp: first_license_def dest: find_Some_mem)

lemma distinct_map_eq:
  "distinct (map f xs) \<Longrightarrow> x \<in> set xs \<Longrightarrow> y \<in> set xs \<Longrightarrow> f x = f y \<Longrightarrow> x = y"
  by (meson distinct_map inj_onD)

section \<open>The outcomes of one call\<close>

text \<open>A call that returns leaves the database as it was, updates \<open>last_seen\<close> of one row, or
  appends one row for the license it found, after the quota test let it pass.\<close>

lemma activate_license_cases:
  assumes "activate_license tz s now t p r d = Inr (resp, d')"
  obtains (same) "d' = d"
  | (touch) e where "d' = touch_activation e now d"
  | (add) k lic where "req_license_key p = Some k" and "first_license d k = Some lic"
      and "existing_activation d (lic_id lic) (req_device_id p) = None"
      and "\<not> (max_act_of (max_activations lic) > 0
             \<and> int (count_activations d (lic_id lic)) \<ge> max_act_of (max_activations lic))"
      and "d' = add_activation (lic_id lic) (or_unknown (req_device_id p))
                  (req_device_fingerprint p) (request_ip r) now d"
proof (cases "req_license_key p")
  case None
  with assms show ?thesis by (simp add: activate_license_def)
next
  case (Some k)
  note k = this
  show ?thesis
  proof (cases "k = []")
    case True
    with assms k show ?thesis by (simp add: activate_license_def)
  next
    case False
    note nonempty = this
    show ?thesis
    proof (cases "first_license d k")
      case None
      with assms k nonempty have "d' = d" by (simp add: activate_license_def)
      then show ?thesis by (rule same)
    next
      case (Some lic)
      note lic = this
      show ?thesis
      proof (cases "active lic = Some True \<and> expired tz lic now = Inr False")
        case False
        with assms k nonempty lic have "d' = d"
          by (auto simp: activate_license_def split: if_splits sum.splits)
        then show ?thesis by (rule same)
      next
        case True
        note usable = this
        show ?thesis
        proof (cases "existing_activation d (lic_id lic) (req_device_id p)")
          case (Some e)
          with assms k nonempty lic usable have "d' = touch_activation e now d"
            by (simp add: activate_license_def)
          then show ?thesis by (rule touch)
        next
          case None
          note fresh = this
          show ?thesis
          proof (cases "max_act_of (max_activations lic) > 0
             \<and> int (count_activations d (lic_id lic)) \<ge> max_act_of (max_activations lic)")
            case True
            with assms k nonempty lic usable fresh have "d' = d"
              by (simp add: activate_license_def Let_def)
            then show ?thesis by (rule same)
          next
            case False
            with assms k nonempty lic usable fresh
            have "d' = add_activation (lic_id lic) (or_unknown (req_device_id p))
                  (req_device_fingerprint p) (request_ip r) now d"
              by (auto simp: activate_license_def Let_def split: if_splits)
            with k lic fresh False show ?thesis by (rule add)
          qed
        qed
      qed
    qed
  qed
qed

lemma activate_license_licenses:
  assumes "activate_license tz s now t p r d = Inr (resp, d')"
  shows "licenses d' = licenses d"
  using assms by (cases rule: activate_license_cases) simp_all

text \<open>The path of lines 55-60: a device id that already has a row for the license.\<close>

lemma first_activation_found:
  assumes "a \<in> set (activations d)" and "license_id a = lid" and "device_id a = Some dev"
  shows "\<exists>e. first_activation d lid dev = Some e \<and> e \<in> set (activations d)
           \<and> license_id e = lid \<and> device_id e = Some dev"
proof -
  from assms have "first_activation d lid dev \<noteq> None"
    by (auto simp: first_activation_def find_eq_None_iff)
  then obtain e where e: "first_activation d lid dev = Some e" by blast
  then have "e \<in> set (activations d) \<and> license_id e = lid \<and> device_id e = Some dev"
    by (auto simp: first_activation_def dest: find_Some_mem)
  with e show ?thesis by blast
qed

lemma activate_license_existing:
  assumes "req_license_key payload = Some k" and "k \<noteq> []"
    and "first_license d k = Some lic"
    and "active lic = Some True" and "expired tz lic now = Inr False"
    and "req_device_id payload = Some dev" and "dev \<noteq> []"
    and "a \<in> set (activations d)" and "license_id a = lic_id lic" and "device_id a = Some dev"
  shows "\<exists>e. e \<in> set (activations d) \<and> license_id e = lic_id lic \<and> device_id e = Some dev
           \<and> activate_license tz secret now issued payload request d
               = Inr (granted ''OK'' (sign_activation secret (license_key lic) (Some dev) issued)
                        (license_summary lic), touch_activation e now d)"
proof -
  from first_activation_found[OF assms(8-10)]
  obtain e where e: "first_activation d (lic_id lic) dev = Some e"
    and mem: "e \<in> set (activations d) \<and> license_id e = lic_id lic \<and> device_id e = Some dev"
    by blast
  have "activate_license tz secret now issued payload request d
          = Inr (granted ''OK'' (sign_activation secret (license_key lic) (Some dev) issued)
                   (license_summary lic), touch_activation e now d)"
    using assms(1-7) e by (simp add: activate_license_def existing_activation_def)
  with mem show ?thesis by blast
qed

text \<open>When the license is not found usable (disabled, expired, or the expiry comparison
  raises), the call writes nothing.\<close>

lemma activate_step_unusable:
  assumes "req_license_key (call_payload c) = Some k" and "k \<noteq> []"
    and "first_license d k = Some lic"
    and "\<not> (active lic = Some True \<and> expired tz lic (call_now c) = Inr False)"
  shows "activate_step tz secret c d = d"
  using assms
  by (auto simp: activate_step_def activate_license_def split: sum.splits if_splits)

text \<open>The comparison of line 47 on a backend that returns timezone-aware datetimes.\<close>

lemma expired_aware:
  "expires_at lic = Some e \<Longrightarrow>
     expired True lic now = Inl (TypeError ''can't compare offset-naive and offset-aware datetimes'')"
  by (simp add: expired_def)

text \<open>The endpoint never stores an empty device id: a row it inserts carries the given id
  or \<open>unknown\<close>, and an update leaves the device ids alone.\<close>

lemma or_unknown_nonempty [simp]: "or_unknown dev \<noteq> []"
  by (simp add: or_unknown_def split: option.splits)

lemma devices_named_iff:
  "devices_named d = (\<forall>x\<in>set (map device_id (activations d)). \<exists>y. x = Some y \<and> y \<noteq> [])"
  by (auto simp: devices_named_def)

lemma devices_named_touch [simp]:
  "devices_named (touch_activation e now d) = devices_named d"
proof -
  have same: "device_id \<circ> (\<lambda>a. if act_id a = act_id e then a\<lparr>last_seen := now\<rparr> else a) = device_id"
    by (auto simp: fun_eq_iff)
  have "map device_id (activations (touch_activation e now d)) = map device_id (activations d)"
    by (simp add: touch_activation_def same)
  then show ?thesis by (simp only: devices_named_iff)
qed

lemma devices_named_add:
  "devices_named d \<Longrightarrow> dev \<noteq> [] \<Longrightarrow> devices_named (add_activation lid dev fp ipa now d)"
  by (auto simp: devices_named_def add_activation_def)

lemma activate_step_devices_named:
  assumes "devices_named d"
  shows "devices_named (activate_step tz s c d)"
proof (cases "activate_license tz s (call_now c) (call_issued c) (call_payload c) (call_request c) d")
  case (Inl e)
  with assms show ?thesis by (simp add: activate_step_def)
next
  case (Inr x)
  then obtain resp d' where x: "x = (resp, d')" by (cases x)
  from Inr[unfolded x] have "devices_named d'"
    by (cases rule: activate_license_cases) (simp_all add: assms devices_named_add)
  with Inr x show ?thesis by (simp add: activate_step_def)
qed

lemma run_calls_devices_named:
  "devices_named d \<Longrightarrow> devices_named (run_calls tz s cs d)"
  unfolding run_calls_def
  by (induction cs arbitrary: d) (simp_all add: activate_step_devices_named)

lemma devices_named_no_rows: "devices_named \<lparr>licenses = ls, activations = []\<rparr>"
  by (simp add: devices_named_def)

section \<open>The activation decision\<close>

text \<open>
  Claim C4. A license that is found and active, and a device id \<open>dev\<close> that already has an
  Activation row for it. The claim holds where the expiry test of line 47 is decided: when the
  test finds the license unexpired, \<open>activate_license\<close> answers \<open>valid = True\<close> with message
  \<open>OK\<close> (the spec's reason OK), a token signed at this request and the license summary, sets
  \<open>last_seen\<close> of the row it found to \<open>now\<close>, and leaves the number of rows and every other
  row as they were; no hypothesis mentions the quota, so the count may equal or exceed
  \<open>max_activations\<close>. It fails where the test is not decided: for a license with an expiry
  date, on a backend that returns timezone-aware datetimes, the call raises \<open>TypeError\<close>
  whether the date has passed or not, and neither answers nor updates the row. A device id is a
  non-empty string: the endpoint reads an empty one as absent, and never stores one (it stores
  \<open>unknown\<close> instead, see \<open>run_calls_devices_named\<close>).
\<close>

theorem reactivation_outcomes:
  assumes "req_license_key payload = Some k" and "k \<noteq> []"
    and "first_license d k = Some lic" and "active lic = Some True"
    and "req_device_id payload = Some dev" and "dev \<noteq> []"
    and "a \<in> set (activations d)" and "license_id a = lic_id lic" and "device_id a = Some dev"
  shows "(expires_at lic = Some e \<longrightarrow>
            activate_license True secret now issued payload request d
              = Inl (TypeError ''can't compare offset-naive and offset-aware datetimes''))
       \<and> (expired tz lic now = Inr False \<longrightarrow>
            (\<exists>existing resp d'.
               activate_license tz secret now issued payload request d = Inr (resp, d')
             \<and> valid resp \<and> message resp = ''OK''
             \<and> activation_token resp
                 = Some (sign_activation secret (license_key lic) (Some dev) issued)
             \<and> license resp
                 = Some (LicenseInfo (license_key lic) (owner lic) (plan lic) (expires_at lic))
             \<and> existing \<in> set (activations d) \<and> license_id existing = lic_id lic
             \<and> device_id existing = Some dev
             \<and> licenses d' = licenses d
             \<and> activations d' =
                 map (\<lambda>r. if act_id r = act_id existing then r\<lparr>last_seen := now\<rparr> else r)
                   (activations d)
             \<and> length (activations d') = length (activations d)
             \<and> count_activations d' (lic_id lic) = count_activations d (lic_id lic)))"
proof (intro conjI impI)
  assume "expires_at lic = Some e"
  then have "expired True lic now
      = Inl (TypeError ''can't compare offset-naive and offset-aware datetimes'')"
    by (rule expired_aware)
  with assms(1-4) show "activate_license True secret now issued payload request d
      = Inl (TypeError ''can't compare offset-naive and offset-aware datetimes'')"
    by (simp add: activate_license_def)
next
  assume unexpired: "expired tz lic now = Inr False"
  from activate_license_existing[OF assms(1-4) unexpired assms(5-9), of secret issued request]
  obtain x where x: "x \<in> set (activations d)" "license_id x = lic_id lic"
      "device_id x = Some dev"
      "activate_license tz secret now issued payload request d
         = Inr (granted ''OK'' (sign_activation secret (license_key lic) (Some dev) issued)
                  (license_summary lic), touch_activation x now d)"
    by blast
  have rows: "activations (touch_activation x now d) =
       map (\<lambda>r. if act_id r = act_id x then r\<lparr>last_seen := now\<rparr> else r) (activations d)"
    by (simp add: touch_activation_def)
  show "\<exists>existing resp d'.
               activate_license tz secret now issued payload request d = Inr (resp, d')
             \<and> valid resp \<and> message resp = ''OK''
             \<and> activation_token resp
                 = Some (sign_activation secret (license_key lic) (Some dev) issued)
             \<and> license resp
                 = Some (LicenseInfo (license_key lic) (owner lic) (plan lic) (expires_at lic))
             \<and> existing \<in> set (activations d) \<and> license_id existing = lic_id lic
             \<and> device_id existing = Some dev
             \<and> licenses d' = licenses d
             \<and> activations d' =
                 map (\<lambda>r. if act_id r = act_id existing then r\<lparr>last_seen := now\<rparr> else r)
                   (activations d)
             \<and> length (activations d') = length (activations d)
             \<and> count_activations d' (lic_id lic) = count_activations d (lic_id lic)"
    using x rows
    by (intro exI[of _ x]
        exI[of _ "granted ''OK'' (sign_activation secret (license_key lic) (Some dev) issued)
                    (license_summary lic)"]
        exI[of _ "touch_activation x now d"])
      (simp add: granted_def license_summary_def)
qed

text \<open>
  The license \<open>lic_dated\<close> is active, expires at 100 and has its one seat taken by device
  \<open>A\<close>. At time 10 it is unexpired. On a timezone-aware backend the re-activation of \<open>A\<close>
  raises \<open>TypeError\<close> and the row keeps its \<open>last_seen\<close>; on a naive backend the same request
  is answered \<open>OK\<close> and the row is updated.
\<close>

theorem reactivation_outcomes_witness:
  "first_license db_dated ''KEY-5'' = Some lic_dated
   \<and> active lic_dated = Some True \<and> expires_at lic_dated = Some 100
   \<and> max_activations lic_dated = Some 1 \<and> count_activations db_dated (lic_id lic_dated) = 1
   \<and> activations db_dated
       = [\<lparr>act_id = 1, license_id = 5, device_id = Some ''A'', device_fingerprint = None,
           ip = None, last_seen = 5, act_created_at = 5\<rparr>]
   \<and> activate_license True ''s3cret'' 10 10 (req ''KEY-5'' (Some ''A'')) None db_dated
       = Inl (TypeError ''can't compare offset-naive and offset-aware datetimes'')
   \<and> expired False lic_dated 10 = Inr False
   \<and> (\<exists>resp d'.
         activate_license False ''s3cret'' 10 10 (req ''KEY-5'' (Some ''A'')) None db_dated
           = Inr (resp, d')
       \<and> valid resp \<and> message resp = ''OK''
       \<and> activation_token resp = Some (sign_activation ''s3cret'' ''KEY-5'' (Some ''A'') 10)
       \<and> license resp = Some (LicenseInfo ''KEY-5'' None (Some ''1month'') (Some 100))
       \<and> licenses d' = [lic_dated]
       \<and> activations d'
           = [\<lparr>act_id = 1, license_id = 5, device_id = Some ''A'', device_fingerprint = None,
               ip = None, last_seen = 10, act_created_at = 5\<rparr>])"
  using reactivation_outcomes [where payload = "req ''KEY-5'' (Some ''A'')" and k = "''KEY-5''"
      and d = db_dated and lic = lic_dated and dev = "''A''" and a = "act_A\<lparr>license_id := 5\<rparr>"
      and e = 100 and secret = "''s3cret''" and now = 10 and issued = 10 and request = None
      and tz = False]
  by (simp add: req_def db_dated_def lic_dated_def act_A_def first_license_def expired_def
      count_activations_def) blast

text \<open>
  Claim C5. The license is found and active, the test of line 47 finds it unexpired, the
  lookup of lines 50-53 yields no existing Activation for the request's device id,
  \<open>max_activations\<close> is \<open>n > 0\<close> and the license already has at least \<open>n\<close> rows:
  \<open>activate_license\<close> returns \<open>valid = False\<close> with message \<open>Activation limit reached\<close>
  (the spec's reason LIMIT_REACHED), and the database after the request is the database
  before it.
\<close>

theorem limit_reached_no_side_effects:
  assumes "req_license_key payload = Some k" and "k \<noteq> []"
    and "first_license d k = Some lic"
    and "active lic = Some True" and "expired tz lic now = Inr False"
    and "existing_activation d (lic_id lic) (req_device_id payload) = None"
    and "max_activations lic = Some n" and "n > 0"
    and "int (count_activations d (lic_id lic)) \<ge> n"
  shows "activate_license tz secret now issued payload request d
           = Inr (refusal ''Activation limit reached'', d)"
  using assms by (simp add: activate_license_def max_act_of_def)

theorem limit_reached_no_side_effects_witness:
  "first_license db_full ''KEY-1'' = Some lic1
   \<and> existing_activation db_full (lic_id lic1) (Some ''B'') = None
   \<and> max_activations lic1 = Some 1 \<and> count_activations db_full (lic_id lic1) = 1
   \<and> expired False lic1 10 = Inr False
   \<and> activate_license False ''s3cret'' 10 10 (req ''KEY-1'' (Some ''B'')) None db_full
       = Inr (refusal ''Activation limit reached'', db_full)"
  using limit_reached_no_side_effects [where payload = "req ''KEY-1'' (Some ''B'')"
      and k = "''KEY-1''" and d = db_full and lic = lic1 and tz = False and now = 10 and n = 1
      and secret = "''s3cret''" and issued = 10 and request = None]
  by (simp add: req_def db_full_def lic1_def act_A_def first_license_def expired_def
      existing_activation_def first_activation_def count_activations_def)

text \<open>
  Claim C6. An activation attempt that names a license whose \<open>active\<close> flag is false is
  answered \<open>valid = False\<close> with message \<open>License disabled\<close> (the spec's reason DISABLED),
  by \<open>activate_license\<close> and by \<open>api_check\<close> alike, and the store is left as it was. Nothing
  is assumed about the expiry date or the number of activations: the flag is tested before
  both.
\<close>

theorem disabled_decided_first:
  "(req_license_key payload = Some k \<and> k \<noteq> [] \<and> first_license d k = Some lic
      \<and> active lic = Some False
    \<longrightarrow> activate_license tz secret now issued payload request d
          = Inr (refusal ''License disabled'', d))
   \<and> (supabase_get_license_row sd (chk_license_key creq) = Some slic
      \<and> sb_active slic = Value False
    \<longrightarrow> api_check iso_before secret now issued creq sd = (refusal ''License disabled'', sd))"
  by (simp add: activate_license_def api_check_def get_or_def)

theorem disabled_decided_first_witness:
  "first_license db_revoked ''KEY-2'' = Some lic_revoked
   \<and> expired False lic_revoked 10 = Inr True
   \<and> count_activations db_revoked (lic_id lic_revoked) = 0
   \<and> activate_license False ''s3cret'' 10 10 (req ''KEY-2'' (Some ''B'')) None db_revoked
        = Inr (refusal ''License disabled'', db_revoked)
   \<and> activate_license True ''s3cret'' 10 10 (req ''KEY-2'' (Some ''B'')) None db_revoked
        = Inr (refusal ''License disabled'', db_revoked)
   \<and> supabase_get_license_row supabase_revoked ''KEY-2'' = Some sb_revoked
   \<and> api_check (\<lambda>e t. Some True) ''s3cret'' 10 10 (chk ''KEY-2'' (Some ''B'')) supabase_revoked
        = (refusal ''License disabled'', supabase_revoked)"
  using disabled_decided_first [where payload = "req ''KEY-2'' (Some ''B'')" and k = "''KEY-2''"
      and d = db_revoked and lic = lic_revoked and tz = False and secret = "''s3cret''"
      and now = 10 and issued = 10 and request = None and sd = supabase_revoked
      and creq = "chk ''KEY-2'' (Some ''B'')" and slic = sb_revoked
      and iso_before = "\<lambda>e t. Some True"]
    disabled_decided_first [where payload = "req ''KEY-2'' (Some ''B'')" and k = "''KEY-2''"
      and d = db_revoked and lic = lic_revoked and tz = True and secret = "''s3cret''"
      and now = 10 and issued = 10 and request = None and sd = supabase_revoked
      and creq = "chk ''KEY-2'' (Some ''B'')" and slic = sb_revoked
      and iso_before = "\<lambda>e t. Some True"]
  by (simp add: req_def chk_def db_revoked_def lic1_def lic_revoked_def act_A_def first_license_def
      expired_def count_activations_def supabase_revoked_def sb_revoked_def
      supabase_get_license_row_def)

section \<open>The quota under sequential calls\<close>

lemma api_check_cases:
  assumes "api_check isob s now t rq d = (resp, d')"
  obtains (same) "d' = d"
  | (touch) e where "d' = touch_activation e now d"
  | (add) lic where "supabase_get_license_row d (chk_license_key rq) = Some lic"
      and "existing_in (supabase_get_activations_for_license d (sb_id lic)) (chk_device_id rq) = None"
      and "\<not> (max_act_of (get_or (sb_max_activations lic) (Some 1)) > 0
             \<and> int (count_activations d (sb_id lic))
                  \<ge> max_act_of (get_or (sb_max_activations lic) (Some 1)))"
      and "d' = add_activation (sb_id lic) (or_unknown (chk_device_id rq))
                  (chk_device_fingerprint rq) None now d"
proof (cases "supabase_get_license_row d (chk_license_key rq)")
  case None
  with assms have "d' = d" by (simp add: api_check_def)
  then show ?thesis by (rule same)
next
  case (Some lic)
  note lic = this
  let ?acts = "supabase_get_activations_for_license d (sb_id lic)"
  let ?found = "existing_in ?acts (chk_device_id rq)"
  have len: "length ?acts = count_activations d (sb_id lic)"
    by (simp add: supabase_get_activations_for_license_def count_activations_def)
  show ?thesis
  proof (cases "get_or (sb_active lic) (Some True) \<noteq> Some True
      \<or> sb_expired isob lic now")
    case True
    with assms lic have "d' = d" by (auto simp: api_check_def split: if_splits)
    then show ?thesis by (rule same)
  next
    case False
    note usable = this
    show ?thesis
    proof (cases ?found)
      case (Some e)
      with assms lic usable have "d' = touch_activation e now d"
        by (simp add: api_check_def Let_def)
      then show ?thesis by (rule touch)
    next
      case None
      note fresh = this
      show ?thesis
      proof (cases "max_act_of (get_or (sb_max_activations lic) (Some 1)) > 0
             \<and> int (count_activations d (sb_id lic))
                  \<ge> max_act_of (get_or (sb_max_activations lic) (Some 1))")
        case True
        with assms lic usable fresh len have "d' = d"
          by (simp add: api_check_def Let_def)
        then show ?thesis by (rule same)
      next
        case False
        with assms lic usable fresh len
        have "d' = add_activation (sb_id lic) (or_unknown (chk_device_id rq))
                  (chk_device_fingerprint rq) None now d"
          by (auto simp: api_check_def Let_def split: if_splits)
        with lic fresh False show ?thesis by (rule add)
      qed
    qed
  qed
qed

lemma supabase_row_mem: "supabase_get_license_row d k = Some lic \<Longrightarrow> lic \<in> set (licenses d)"
  by (auto simp: supabase_get_license_row_def dest: find_Some_mem)

lemma activate_license_quota:
  assumes res: "activate_license tz s now t p r d = Inr (resp, d')"
    and dist: "distinct (map lic_id (licenses d))"
    and l: "l \<in> set (licenses d)" "max_activations l = Some N" "N > 0"
    and le: "int (count_activations d (lic_id l)) \<le> N"
  shows "int (count_activations d' (lic_id l)) \<le> N"
  using res
proof (cases rule: activate_license_cases)
  case same
  with le show ?thesis by simp
next
  case (touch e)
  with le show ?thesis by simp
next
  case (add k lic)
  show ?thesis
  proof (cases "lic_id lic = lic_id l")
    case True
    with dist l(1) first_license_mem[OF add(2)] have "lic = l" by (metis distinct_map_eq)
    with add(4) l(2,3) have "int (count_activations d (lic_id l)) < N"
      by (simp add: max_act_of_def)
    with add(5) True show ?thesis by (simp add: count_add)
  next
    case False
    with add(5) le show ?thesis by (simp add: count_add)
  qed
qed

lemma activate_step_quota:
  assumes "distinct (map lic_id (licenses d))"
    and "l \<in> set (licenses d)" "max_activations l = Some N" "N > 0"
    and "int (count_activations d (lic_id l)) \<le> N"
  shows "licenses (activate_step tz s c d) = licenses d
       \<and> int (count_activations (activate_step tz s c d) (lic_id l)) \<le> N"
proof (cases "activate_license tz s (call_now c) (call_issued c) (call_payload c) (call_request c) d")
  case (Inl e)
  with assms show ?thesis by (simp add: activate_step_def)
next
  case (Inr x)
  then obtain resp d' where x: "x = (resp, d')" by (cases x)
  with Inr assms activate_license_quota[of tz s _ _ _ _ d resp d' l N]
    activate_license_licenses[of tz s _ _ _ _ d resp d']
  show ?thesis by (simp add: activate_step_def)
qed

lemma run_calls_quota:
  assumes "distinct (map lic_id (licenses d))"
    and "l \<in> set (licenses d)" and "max_activations l = Some N" and "N > 0"
    and "int (count_activations d (lic_id l)) \<le> N"
  shows "licenses (run_calls tz secret cs d) = licenses d
       \<and> int (count_activations (run_calls tz secret cs d) (lic_id l)) \<le> N"
  unfolding run_calls_def using assms
proof (induction cs arbitrary: d)
  case Nil
  then show ?case by simp
next
  case (Cons c cs)
  from activate_step_quota[OF Cons.prems, of tz secret c]
  have st: "licenses (activate_step tz secret c d) = licenses d"
    "int (count_activations (activate_step tz secret c d) (lic_id l)) \<le> N" by simp_all
  with Cons.prems Cons.IH[of "activate_step tz secret c d"] show ?case by simp
qed

lemma api_check_quota:
  assumes res: "api_check isob s now t rq d = (resp, d')"
    and dist: "distinct (map sb_id (licenses d))"
    and l: "l \<in> set (licenses d)" "sb_max_activations l = Value N" "N > 0"
    and le: "int (count_activations d (sb_id l)) \<le> N"
  shows "licenses d' = licenses d \<and> int (count_activations d' (sb_id l)) \<le> N"
  using res
proof (cases rule: api_check_cases)
  case same
  with le show ?thesis by simp
next
  case (touch e)
  with le show ?thesis by simp
next
  case (add lic)
  show ?thesis
  proof (cases "sb_id lic = sb_id l")
    case True
    with dist l(1) supabase_row_mem[OF add(1)] have "lic = l" by (metis distinct_map_eq)
    with add(3) l(2,3) have "int (count_activations d (sb_id l)) < N"
      by (simp add: max_act_of_def get_or_def)
    with add(4) True show ?thesis by (simp add: count_add)
  next
    case False
    with add(4) le show ?thesis by (simp add: count_add)
  qed
qed

lemma run_checks_quota:
  assumes "distinct (map sb_id (licenses d))"
    and "l \<in> set (licenses d)" and "sb_max_activations l = Value N" and "N > 0"
    and "int (count_activations d (sb_id l)) \<le> N"
  shows "licenses (run_checks isob secret cs d) = licenses d
       \<and> int (count_activations (run_checks isob secret cs d) (sb_id l)) \<le> N"
  unfolding run_checks_def using assms
proof (induction cs arbitrary: d)
  case Nil
  then show ?case by simp
next
  case (Cons c cs)
  obtain resp d' where r: "api_check isob secret (chk_now c) (chk_issued c) (chk_request c) d = (resp, d')"
    by (cases "api_check isob secret (chk_now c) (chk_issued c) (chk_request c) d")
  from api_check_quota[OF r Cons.prems]
  have st: "licenses d' = licenses d" "int (count_activations d' (sb_id l)) \<le> N" by simp_all
  with Cons.prems Cons.IH[of d'] r show ?case by simp
qed

lemma activate_license_read_commit:
  "activate_license tz s now t p r d =
     (case activate_read tz s now t p r d of
        (Inl e, w) \<Rightarrow> Inl e
      | (Inr resp, w) \<Rightarrow> Inr (resp, commit_write w now d))"
  by (simp add: activate_license_def activate_read_def commit_write_def Let_def
      split: option.splits sum.splits)

text \<open>A request that reads and commits without another request in between is one call of
  \<open>activate_license\<close>.\<close>

lemma advance_twice:
  assumes "advance tz s (Received c) d = (t1, d1)" and "advance tz s t1 d1 = (t2, d2)"
  shows "d1 = d \<and> d2 = activate_step tz s c d
       \<and> t2 = Answered (map_sum id fst
              (activate_license tz s (call_now c) (call_issued c) (call_payload c) (call_request c) d))"
proof -
  obtain answer w where rd:
    "activate_read tz s (call_now c) (call_issued c) (call_payload c) (call_request c) d = (answer, w)"
    by (cases "activate_read tz s (call_now c) (call_issued c) (call_payload c) (call_request c) d")
  with assms(1) have t1: "t1 = Decided c answer w" "d1 = d" by simp_all
  with assms(2) have t2: "t2 = Answered answer" "d2 = commit_write w (call_now c) d" by simp_all
  have "answer = Inl e \<Longrightarrow> w = NoWrite" for e
    using rd by (auto simp: activate_read_def Let_def split: option.splits if_splits sum.splits)
  with rd t1 t2 show ?thesis
    by (cases answer)
      (auto simp: activate_step_def activate_license_read_commit commit_write_def)
qed


text \<open>
  Claim C1, amended. A license with \<open>max_activations = N > 0\<close> that holds at most
  \<open>N\<close> Activation rows still holds at most \<open>N\<close> after any list of calls served one after
  another, whatever device ids they carry; the same for \<open>api_check\<close>. The primary keys of the
  licenses table are distinct.
\<close>

theorem sequential_calls_respect_quota:
  "(distinct (map lic_id (licenses d)) \<and> l \<in> set (licenses d) \<and> max_activations l = Some N
      \<and> N > 0 \<and> int (count_activations d (lic_id l)) \<le> N
    \<longrightarrow> int (count_activations (run_calls tz secret cs d) (lic_id l)) \<le> N)
   \<and> (distinct (map sb_id (licenses sd)) \<and> sl \<in> set (licenses sd)
      \<and> sb_max_activations sl = Value M \<and> M > 0 \<and> int (count_activations sd (sb_id sl)) \<le> M
    \<longrightarrow> int (count_activations (run_checks isob secret ccs sd) (sb_id sl)) \<le> M)"
  using run_calls_quota[of d l N tz secret cs] run_checks_quota[of sd sl M isob secret ccs]
  by blast

theorem sequential_calls_respect_quota_witness:
  "distinct (map lic_id (licenses db_fresh)) \<and> lic1 \<in> set (licenses db_fresh)
   \<and> max_activations lic1 = Some 1 \<and> count_activations db_fresh (lic_id lic1) = 0
   \<and> int (count_activations (run_calls False ''s3cret'' [call_A, call_B, call_A] db_fresh)
            (lic_id lic1)) \<le> 1
   \<and> distinct (map sb_id (licenses supabase_quota)) \<and> sb_quota \<in> set (licenses supabase_quota)
   \<and> sb_max_activations sb_quota = Value 1
   \<and> int (count_activations
            (run_checks (\<lambda>e t. None) ''s3cret'' [check_A, check_B] supabase_quota) (sb_id sb_quota)) \<le> 1"
  using sequential_calls_respect_quota [where d = db_fresh and l = lic1 and N = 1 and tz = False
      and secret = "''s3cret''" and cs = "[call_A, call_B, call_A]" and sd = supabase_quota
      and sl = sb_quota and M = 1 and isob = "\<lambda>e t. None" and ccs = "[check_A, check_B]"]
  by (simp add: db_fresh_def lic1_def count_activations_def supabase_quota_def sb_quota_def)

text \<open>
  Claim C1 as stated fails for concurrent requests. The license \<open>lic1\<close> has quota 1 and no
  activation (count = N - 1). Under the schedule \<open>[0, 1, 0, 1]\<close> the requests of devices
  \<open>A\<close> and \<open>B\<close> both read before either commits: both are admitted and the license ends
  with two rows.
\<close>

theorem concurrent_calls_exceed_quota:
  "max_activations lic1 = Some 1
   \<and> count_activations db_fresh (lic_id lic1) = 0
   \<and> map admitted (fst (run_schedule False ''s3cret'' [0, 1, 0, 1]
        ([Received call_A, Received call_B], db_fresh))) = [True, True]
   \<and> count_activations (snd (run_schedule False ''s3cret'' [0, 1, 0, 1]
        ([Received call_A, Received call_B], db_fresh))) (lic_id lic1) = 2"
  by (simp add: lic1_def db_fresh_def call_A_def call_B_def req_def activate_read_def
      first_license_def expired_def existing_activation_def first_activation_def
      count_activations_def max_act_of_def commit_write_def add_activation_def next_id_def
      admitted_def granted_def or_unknown_def request_ip_def)

section \<open>One row per device\<close>

lemma activate_license_one_row:
  assumes res: "activate_license tz s now t p r d = Inr (resp, d')"
    and dev: "req_device_id p = Some x" "x \<noteq> []"
    and inv: "one_row_per_device d"
  shows "one_row_per_device d'"
  using res
proof (cases rule: activate_license_cases)
  case same
  with inv show ?thesis by simp
next
  case (touch e)
  with inv show ?thesis by simp
next
  case (add k lic)
  from add(3) dev have "first_activation d (lic_id lic) x = None"
    by (simp add: existing_activation_def)
  then have "(lic_id lic, Some x) \<notin> (\<lambda>a. (license_id a, device_id a)) ` set (activations d)"
    by (auto simp: first_activation_def find_eq_None_iff)
  with inv add(5) dev show ?thesis
    by (simp add: one_row_per_device_def add_activation_def or_unknown_def)
qed

lemma activate_step_one_row:
  assumes "has_device c" and "one_row_per_device d"
  shows "one_row_per_device (activate_step tz s c d)"
proof (cases "activate_license tz s (call_now c) (call_issued c) (call_payload c) (call_request c) d")
  case (Inl e)
  with assms show ?thesis by (simp add: activate_step_def)
next
  case (Inr x)
  then obtain resp d' where x: "x = (resp, d')" by (cases x)
  from assms(1) obtain dev where dev: "req_device_id (call_payload c) = Some dev" "dev \<noteq> []"
    by (auto simp: has_device_def split: option.splits)
  from Inr x activate_license_one_row[OF _ dev assms(2), of tz s "call_now c" "call_issued c"
      "call_request c" resp d']
  show ?thesis by (simp add: activate_step_def)
qed

lemma run_calls_one_row:
  assumes "\<forall>c\<in>set cs. has_device c" and "one_row_per_device d"
  shows "one_row_per_device (run_calls tz s cs d)"
  unfolding run_calls_def using assms
proof (induction cs arbitrary: d)
  case Nil
  then show ?case by simp
next
  case (Cons c cs)
  then show ?case by (simp add: activate_step_one_row)
qed

text \<open>The rows that name a device stay distinct under every call, with or without device
  id: a row is inserted for a named device only after the lookup of lines 52-53 found none.\<close>

lemma named_rows_touch [simp]:
  "one_row_per_named_device (touch_activation e now d) = one_row_per_named_device d"
proof -
  have same: "(\<lambda>a. (license_id a, device_id a)) \<circ> (\<lambda>a. if act_id a = act_id e then a\<lparr>last_seen := now\<rparr> else a)
      = (\<lambda>a. (license_id a, device_id a))"
    by (auto simp: fun_eq_iff)
  show ?thesis by (simp add: one_row_per_named_device_def touch_activation_def same)
qed

lemma named_rows_add:
  assumes inv: "one_row_per_named_device d"
    and fresh: "existing_activation d lid dev = None"
  shows "one_row_per_named_device (add_activation lid (or_unknown dev) fp ipa now d)"
proof (cases "or_unknown dev = ''unknown''")
  case True
  with inv show ?thesis
    by (simp add: one_row_per_named_device_def add_activation_def)
next
  case False
  then obtain x where x: "dev = Some x" "x \<noteq> []" "or_unknown dev = x"
    by (auto simp: or_unknown_def split: option.splits if_splits)
  with fresh have "first_activation d lid x = None"
    by (simp add: existing_activation_def)
  then have "(lid, Some x) \<notin> (\<lambda>a. (license_id a, device_id a)) ` set (activations d)"
    by (auto simp: first_activation_def find_eq_None_iff)
  with inv x show ?thesis
    by (simp add: one_row_per_named_device_def add_activation_def)
qed

lemma activate_step_named_rows:
  assumes "one_row_per_named_device d"
  shows "one_row_per_named_device (activate_step tz s c d)"
proof (cases "activate_license tz s (call_now c) (call_issued c) (call_payload c) (call_request c) d")
  case (Inl e)
  with assms show ?thesis by (simp add: activate_step_def)
next
  case (Inr x)
  then obtain resp d' where x: "x = (resp, d')" by (cases x)
  from Inr[unfolded x] have "one_row_per_named_device d'"
    by (cases rule: activate_license_cases) (simp_all add: assms named_rows_add)
  with Inr x show ?thesis by (simp add: activate_step_def)
qed

lemma run_calls_named_rows:
  "one_row_per_named_device d \<Longrightarrow> one_row_per_named_device (run_calls tz s cs d)"
  unfolding run_calls_def
  by (induction cs arbitrary: d) (simp_all add: activate_step_named_rows)

text \<open>A call from a device that already has a row for the license found.\<close>

lemma activate_step_existing:
  assumes "req_license_key (call_payload c) = Some k" and "k \<noteq> []"
    and "first_license d k = Some lic"
    and "active lic = Some True" and "expired tz lic (call_now c) = Inr False"
    and "req_device_id (call_payload c) = Some dev" and "dev \<noteq> []"
    and "a \<in> set (activations d)" and "license_id a = lic_id lic" and "device_id a = Some dev"
  shows "\<exists>x\<in>set (activations d). license_id x = lic_id lic \<and> device_id x = Some dev
           \<and> activations (activate_step tz secret c d)
               = map (\<lambda>r. if act_id r = act_id x then r\<lparr>last_seen := call_now c\<rparr> else r)
                   (activations d)"
proof -
  from activate_license_existing[OF assms, of secret "call_issued c" "call_request c"]
  obtain x where x: "x \<in> set (activations d)" "license_id x = lic_id lic"
      "device_id x = Some dev"
      "activate_license tz secret (call_now c) (call_issued c) (call_payload c) (call_request c) d
         = Inr (granted ''OK'' (sign_activation secret (license_key lic) (Some dev) (call_issued c))
                  (license_summary lic), touch_activation x (call_now c) d)"
    by blast
  then have "activations (activate_step tz secret c d)
      = map (\<lambda>r. if act_id r = act_id x then r\<lparr>last_seen := call_now c\<rparr> else r) (activations d)"
    by (simp add: activate_step_def touch_activation_def)
  with x(1-3) show ?thesis by blast
qed

text \<open>
  Claim C3, amended. For calls served one after another:
  \<^item> whatever the calls, the rows that name a device (a device id other than \<open>unknown\<close>) stay
    at most one per license and device id;
  \<^item> while every call carries a non-empty device id, this holds of all rows, those with
    \<open>unknown\<close> included;
  \<^item> a call from a device that already holds a row of the license found never inserts a row:
    when the endpoint finds the license active and unexpired it rewrites \<open>last_seen\<close> of the
    row found, and otherwise (license disabled or expired, or the expiry test raising
    \<open>TypeError\<close>) it leaves the store as it was.

  A call without device id is not looked up (see the counterexample below), and calls that
  interleave are not covered (see \<open>interleaved_calls_duplicate_device\<close>).
\<close>

theorem one_row_per_device_sequential:
  "(one_row_per_named_device d \<longrightarrow> one_row_per_named_device (run_calls tz secret cs d))
   \<and> ((\<forall>c\<in>set ds. has_device c) \<and> one_row_per_device d1
      \<longrightarrow> one_row_per_device (run_calls tz secret ds d1))
   \<and> (req_license_key (call_payload c) = Some k \<and> k \<noteq> [] \<and> first_license d2 k = Some lic
        \<and> req_device_id (call_payload c) = Some dev \<and> dev \<noteq> []
        \<and> a \<in> set (activations d2) \<and> license_id a = lic_id lic \<and> device_id a = Some dev
      \<longrightarrow> length (activations (activate_step tz secret c d2)) = length (activations d2)
        \<and> (active lic = Some True \<and> expired tz lic (call_now c) = Inr False
            \<longrightarrow> (\<exists>x\<in>set (activations d2). license_id x = lic_id lic \<and> device_id x = Some dev
                  \<and> activations (activate_step tz secret c d2)
                      = map (\<lambda>r. if act_id r = act_id x then r\<lparr>last_seen := call_now c\<rparr> else r)
                          (activations d2)))
        \<and> (\<not> (active lic = Some True \<and> expired tz lic (call_now c) = Inr False)
            \<longrightarrow> activate_step tz secret c d2 = d2))"
proof (intro conjI impI)
  assume "one_row_per_named_device d"
  then show "one_row_per_named_device (run_calls tz secret cs d)"
    by (rule run_calls_named_rows)
next
  assume "(\<forall>c\<in>set ds. has_device c) \<and> one_row_per_device d1"
  then show "one_row_per_device (run_calls tz secret ds d1)"
    by (simp add: run_calls_one_row)
next
  assume h: "req_license_key (call_payload c) = Some k \<and> k \<noteq> [] \<and> first_license d2 k = Some lic
        \<and> req_device_id (call_payload c) = Some dev \<and> dev \<noteq> []
        \<and> a \<in> set (activations d2) \<and> license_id a = lic_id lic \<and> device_id a = Some dev"
  show "length (activations (activate_step tz secret c d2)) = length (activations d2)"
  proof (cases "active lic = Some True \<and> expired tz lic (call_now c) = Inr False")
    case True
    from h have hs: "req_license_key (call_payload c) = Some k" "k \<noteq> []"
        "first_license d2 k = Some lic" "req_device_id (call_payload c) = Some dev" "dev \<noteq> []"
        "a \<in> set (activations d2)" "license_id a = lic_id lic" "device_id a = Some dev"
      by simp_all
    from True have us: "active lic = Some True" "expired tz lic (call_now c) = Inr False"
      by simp_all
    from activate_step_existing[OF hs(1-3) us hs(4-8), of secret] show ?thesis by auto
  next
    case False
    with h activate_step_unusable[of c k d2 lic tz secret] show ?thesis by simp
  qed
next
  assume h: "req_license_key (call_payload c) = Some k \<and> k \<noteq> [] \<and> first_license d2 k = Some lic
        \<and> req_device_id (call_payload c) = Some dev \<and> dev \<noteq> []
        \<and> a \<in> set (activations d2) \<and> license_id a = lic_id lic \<and> device_id a = Some dev"
    and usable: "active lic = Some True \<and> expired tz lic (call_now c) = Inr False"
  with activate_step_existing[of c k d2 lic tz dev a secret]
  show "\<exists>x\<in>set (activations d2). license_id x = lic_id lic \<and> device_id x = Some dev
                  \<and> activations (activate_step tz secret c d2)
                      = map (\<lambda>r. if act_id r = act_id x then r\<lparr>last_seen := call_now c\<rparr> else r)
                          (activations d2)"
    by blast
next
  assume h: "req_license_key (call_payload c) = Some k \<and> k \<noteq> [] \<and> first_license d2 k = Some lic
        \<and> req_device_id (call_payload c) = Some dev \<and> dev \<noteq> []
        \<and> a \<in> set (activations d2) \<and> license_id a = lic_id lic \<and> device_id a = Some dev"
    and unusable: "\<not> (active lic = Some True \<and> expired tz lic (call_now c) = Inr False)"
  with activate_step_unusable[of c k d2 lic tz secret]
  show "activate_step tz secret c d2 = d2" by blast
qed

text \<open>
  On the license without quota, two calls without device id and two of device \<open>A\<close>, in
  turn, leave one row for \<open>A\<close> and two for \<open>unknown\<close>. On the full license, a call of a new
  device and one of device \<open>A\<close> leave one row, and the call of \<open>A\<close> rewrites \<open>last_seen\<close> of
  its row. On a timezone-aware backend, the call of \<open>A\<close> for the license with an expiry date
  leaves the store as it was.
\<close>

theorem one_row_per_device_sequential_witness:
  "one_row_per_named_device db_open
   \<and> map (\<lambda>a. (license_id a, device_id a))
        (activations (run_calls False ''s3cret''
           [call_anon 10, call_named ''A'' 11, call_anon 12, call_named ''A'' 13] db_open))
       = [(3, Some ''unknown''), (3, Some ''A''), (3, Some ''unknown'')]
   \<and> one_row_per_named_device (run_calls False ''s3cret''
        [call_anon 10, call_named ''A'' 11, call_anon 12, call_named ''A'' 13] db_open)
   \<and> has_device call_B \<and> has_device call_A \<and> one_row_per_device db_full
   \<and> one_row_per_device (run_calls False ''s3cret'' [call_B, call_A] db_full)
   \<and> first_license db_full ''KEY-1'' = Some lic1
   \<and> activations db_full
       = [\<lparr>act_id = 1, license_id = 1, device_id = Some ''A'', device_fingerprint = None,
           ip = None, last_seen = 5, act_created_at = 5\<rparr>]
   \<and> activations (activate_step False ''s3cret'' call_A db_full)
       = [\<lparr>act_id = 1, license_id = 1, device_id = Some ''A'', device_fingerprint = None,
           ip = None, last_seen = 10, act_created_at = 5\<rparr>]
   \<and> first_license db_dated ''KEY-5'' = Some lic_dated
   \<and> expired True lic_dated 10
       = Inl (TypeError ''can't compare offset-naive and offset-aware datetimes'')
   \<and> activate_step True ''s3cret'' call_dated db_dated = db_dated"
  using one_row_per_device_sequential [where d = db_open and tz = False and secret = "''s3cret''"
      and cs = "[call_anon 10, call_named ''A'' 11, call_anon 12, call_named ''A'' 13]"
      and ds = "[call_B, call_A]" and ?d1.0 = db_full and c = call_A and k = "''KEY-1''"
      and ?d2.0 = db_full and lic = lic1 and dev = "''A''" and a = act_A]
    one_row_per_device_sequential [where d = db_open and tz = True and secret = "''s3cret''"
      and cs = "[]" and ds = "[]" and ?d1.0 = db_full and c = call_dated and k = "''KEY-5''"
      and ?d2.0 = db_dated and lic = lic_dated and dev = "''A''"
      and a = "act_A\<lparr>license_id := 5\<rparr>"]
  by (simp add: has_device_def call_A_def call_B_def call_anon_def call_named_def call_dated_def
      req_def db_full_def db_open_def db_dated_def lic1_def lic_open_def lic_dated_def act_A_def
      one_row_per_device_def one_row_per_named_device_def first_license_def expired_def
      run_calls_def activate_step_def activate_license_def existing_activation_def
      first_activation_def count_activations_def max_act_of_def add_activation_def
      touch_activation_def next_id_def or_unknown_def request_ip_def)

text \<open>
  Claim C3 as stated fails for the \<open>unknown\<close> sentinel: two calls without device id on a
  license without quota are both admitted, and the license ends with two rows whose device id
  is \<open>unknown\<close>.
\<close>

theorem anonymous_calls_duplicate_unknown:
  "one_row_per_device db_open
   \<and> map (\<lambda>a. (license_id a, device_id a))
        (activations (run_calls False ''s3cret'' [call_anon 10, call_anon 11] db_open))
       = [(3, Some ''unknown''), (3, Some ''unknown'')]
   \<and> \<not> one_row_per_device (run_calls False ''s3cret'' [call_anon 10, call_anon 11] db_open)"
  by (simp add: one_row_per_device_def db_open_def lic_open_def call_anon_def req_def
      run_calls_def activate_step_def activate_license_def first_license_def expired_def
      existing_activation_def count_activations_def max_act_of_def add_activation_def
      next_id_def or_unknown_def request_ip_def)

text \<open>
  The invariant needs the calls to be served one after another. Two requests of the same new
  device \<open>A\<close> for the license without quota that both read before either commits both
  insert: the license ends with two rows for \<open>A\<close>.
\<close>

lemma interleaved_calls_duplicate_device:
  "one_row_per_named_device db_open
   \<and> map (\<lambda>a. (license_id a, device_id a))
        (activations (snd (run_schedule False ''s3cret'' [0, 1, 0, 1]
           ([Received (call_named ''A'' 10), Received (call_named ''A'' 11)], db_open))))
       = [(3, Some ''A''), (3, Some ''A'')]
   \<and> \<not> one_row_per_named_device (snd (run_schedule False ''s3cret'' [0, 1, 0, 1]
           ([Received (call_named ''A'' 10), Received (call_named ''A'' 11)], db_open)))"
  by (simp add: one_row_per_named_device_def db_open_def lic_open_def call_named_def req_def
      activate_read_def first_license_def expired_def existing_activation_def
      first_activation_def count_activations_def max_act_of_def commit_write_def
      add_activation_def next_id_def or_unknown_def request_ip_def)

section \<open>Negative quotas\<close>

lemma find_map_preserved:
  assumes "\<And>x. P (f x) = P x"
  shows "find P (map f xs) = map_option f (find P xs)"
  using assms by (induction xs) auto

lemma first_license_unlimit:
  "first_license (unlimit_all d) k = map_option unlimit (first_license d k)"
  unfolding first_license_def unlimit_all_def
  by (simp add: find_map_preserved unlimit_def)

lemma unlimit_fields [simp]:
  "lic_id (unlimit l) = lic_id l" "license_key (unlimit l) = license_key l"
  "active (unlimit l) = active l" "expired tz (unlimit l) now = expired tz l now"
  "license_summary (unlimit l) = license_summary l"
  "(0 < max_act_of (max_activations (unlimit l))) = (0 < max_act_of (max_activations l))"
  by (auto simp: unlimit_def expired_def license_summary_def max_act_of_def)

lemma unlimit_max_pos:
  "0 < max_act_of (max_activations l) \<Longrightarrow> max_activations (unlimit l) = max_activations l"
  by (simp add: unlimit_def)

lemma store_ops_unlimit [simp]:
  "existing_activation (unlimit_all d) lid dev = existing_activation d lid dev"
  "count_activations (unlimit_all d) lid = count_activations d lid"
  "touch_activation e now (unlimit_all d) = unlimit_all (touch_activation e now d)"
  "add_activation lid dv fp ipa now (unlimit_all d) = unlimit_all (add_activation lid dv fp ipa now d)"
  by (simp_all add: unlimit_all_def existing_activation_def first_activation_def
      count_activations_def touch_activation_def add_activation_def split: option.splits)

lemma activate_license_unlimit:
  "activate_license tz secret now issued payload request (unlimit_all d)
     = map_sum id (map_prod id unlimit_all)
         (activate_license tz secret now issued payload request d)"
proof (cases "req_license_key payload")
  case None
  then show ?thesis by (simp add: activate_license_def)
next
  case (Some k)
  note k = this
  show ?thesis
  proof (cases "first_license d k")
    case None
    with k show ?thesis by (simp add: activate_license_def first_license_unlimit)
  next
    case (Some lic)
    show ?thesis
    proof (cases "0 < max_act_of (max_activations lic)")
      case True
      with Some k show ?thesis
        by (simp add: activate_license_def first_license_unlimit unlimit_max_pos Let_def
            split: option.splits sum.splits)
    next
      case False
      then have "\<not> 0 < max_act_of (max_activations (unlimit lic))" by simp
      with False Some k show ?thesis
        by (simp add: activate_license_def first_license_unlimit Let_def
            split: option.splits sum.splits)
    qed
  qed
qed

text \<open>The same for the Supabase store.\<close>

lemma supabase_row_unlimit:
  "supabase_get_license_row (sb_unlimit_all d) k
     = map_option sb_unlimit (supabase_get_license_row d k)"
  unfolding supabase_get_license_row_def sb_unlimit_all_def
  by (simp add: find_map_preserved sb_unlimit_def)

lemma sb_unlimit_fields [simp]:
  "sb_id (sb_unlimit l) = sb_id l" "sb_key (sb_unlimit l) = sb_key l"
  "sb_active (sb_unlimit l) = sb_active l" "sb_expired isob (sb_unlimit l) now = sb_expired isob l now"
  "sb_summary (sb_unlimit l) = sb_summary l"
  "(0 < max_act_of (get_or (sb_max_activations (sb_unlimit l)) (Some 1)))
     = (0 < max_act_of (get_or (sb_max_activations l) (Some 1)))"
  by (auto simp: sb_unlimit_def sb_expired_def sb_summary_def max_act_of_def get_or_def)

lemma sb_unlimit_max_pos:
  "0 < max_act_of (get_or (sb_max_activations l) (Some 1))
     \<Longrightarrow> sb_max_activations (sb_unlimit l) = sb_max_activations l"
  by (simp add: sb_unlimit_def)

lemma store_ops_sb_unlimit [simp]:
  "supabase_get_activations_for_license (sb_unlimit_all d) lid
     = supabase_get_activations_for_license d lid"
  "touch_activation e now (sb_unlimit_all d) = sb_unlimit_all (touch_activation e now d)"
  "add_activation lid dv fp ipa now (sb_unlimit_all d)
     = sb_unlimit_all (add_activation lid dv fp ipa now d)"
  by (simp_all add: sb_unlimit_all_def supabase_get_activations_for_license_def
      touch_activation_def add_activation_def)

lemma api_check_unlimit:
  "api_check isob secret now issued creq (sb_unlimit_all d)
     = map_prod id sb_unlimit_all (api_check isob secret now issued creq d)"
proof (cases "supabase_get_license_row d (chk_license_key creq)")
  case None
  then show ?thesis by (simp add: api_check_def supabase_row_unlimit)
next
  case (Some lic)
  show ?thesis
  proof (cases "0 < max_act_of (get_or (sb_max_activations lic) (Some 1))")
    case True
    with Some show ?thesis
      by (simp add: api_check_def supabase_row_unlimit sb_unlimit_max_pos Let_def
          split: option.splits)
  next
    case False
    then have "\<not> 0 < max_act_of (get_or (sb_max_activations (sb_unlimit lic)) (Some 1))"
      by simp
    with False Some show ?thesis
      by (simp add: api_check_def supabase_row_unlimit Let_def split: option.splits)
  qed
qed

text \<open>The answers of the two endpoints that take the limit branch.\<close>

lemma activate_license_limit_branch:
  assumes "activate_license tz secret now issued payload request d = Inr (resp, d')"
    and "message resp = ''Activation limit reached''"
    and "req_license_key payload = Some k" and "first_license d k = Some lic"
  shows "0 < max_act_of (max_activations lic)"
  using assms
  by (auto simp: activate_license_def refusal_def granted_def Let_def
      split: if_splits option.splits sum.splits)

lemma api_check_limit_branch:
  assumes "message (fst (api_check isob secret now issued creq sd)) = ''Activation limit reached''"
    and "supabase_get_license_row sd (chk_license_key creq) = Some slic"
  shows "0 < max_act_of (get_or (sb_max_activations slic) (Some 1))"
  using assms
  by (auto simp: api_check_def refusal_def granted_def Let_def
      split: if_splits option.splits)

text \<open>
  Claim C10. A license whose \<open>max_activations\<close> is negative admits every activation of a
  new device, by \<open>activate_license\<close> and by \<open>api_check\<close>, however many rows it already has:
  the answer is \<open>valid = True\<close> with message \<open>Activated\<close>, the token signed at this request
  and the license summary, and one row is appended for the license, with a fresh primary key,
  the device id of the request (or \<open>unknown\<close>), its fingerprint, the caller's address and
  \<open>last_seen = now\<close>. No answer for such a license is \<open>Activation limit reached\<close>: the guard
  \<open>max_act > 0\<close> fails, so the limit branch is not taken. And each endpoint behaves on any
  store exactly as on the store in which every negative quota is replaced by 0: the same
  exception or the same response, and the same rows afterwards.
\<close>

theorem negative_quota_is_unlimited:
  "(req_license_key payload = Some k \<and> k \<noteq> [] \<and> first_license d k = Some lic
      \<and> active lic = Some True \<and> expired tz lic now = Inr False
      \<and> existing_activation d (lic_id lic) (req_device_id payload) = None
      \<and> max_activations lic = Some n \<and> n < 0
    \<longrightarrow> (\<exists>resp d'.
          activate_license tz secret now issued payload request d = Inr (resp, d')
        \<and> valid resp \<and> message resp = ''Activated''
        \<and> activation_token resp
            = Some (sign_activation secret (license_key lic) (req_device_id payload) issued)
        \<and> license resp
            = Some (LicenseInfo (license_key lic) (owner lic) (plan lic) (expires_at lic))
        \<and> licenses d' = licenses d
        \<and> activations d' = activations d @
            [\<lparr>act_id = Suc (fold max (map act_id (activations d)) 0), license_id = lic_id lic,
              device_id = Some (case req_device_id payload of
                                  None \<Rightarrow> ''unknown''
                                | Some x \<Rightarrow> if x = [] then ''unknown'' else x),
              device_fingerprint = req_device_fingerprint payload,
              ip = (case request of None \<Rightarrow> None | Some r \<Rightarrow> client_host r),
              last_seen = now, act_created_at = now\<rparr>]
        \<and> count_activations d' (lic_id lic) = Suc (count_activations d (lic_id lic))))
   \<and> (supabase_get_license_row sd (chk_license_key creq) = Some slic
      \<and> get_or (sb_active slic) (Some True) = Some True \<and> \<not> sb_expired isob slic now
      \<and> existing_in (supabase_get_activations_for_license sd (sb_id slic)) (chk_device_id creq) = None
      \<and> sb_max_activations slic = Value m \<and> m < 0
    \<longrightarrow> (\<exists>resp sd'.
          api_check isob secret now issued creq sd = (resp, sd')
        \<and> valid resp \<and> message resp = ''Activated''
        \<and> activation_token resp
            = Some (sign_activation secret (sb_key slic) (chk_device_id creq) issued)
        \<and> license resp
            = Some (LicenseInfo (sb_key slic) (sb_owner slic) (sb_plan slic) (sb_expires_at slic))
        \<and> licenses sd' = licenses sd
        \<and> activations sd' = activations sd @
            [\<lparr>act_id = Suc (fold max (map act_id (activations sd)) 0), license_id = sb_id slic,
              device_id = Some (case chk_device_id creq of
                                  None \<Rightarrow> ''unknown''
                                | Some x \<Rightarrow> if x = [] then ''unknown'' else x),
              device_fingerprint = chk_device_fingerprint creq, ip = None,
              last_seen = now, act_created_at = now\<rparr>]
        \<and> count_activations sd' (sb_id slic) = Suc (count_activations sd (sb_id slic))))
   \<and> (req_license_key p3 = Some k3 \<and> first_license d3 k3 = Some lic3
      \<and> max_activations lic3 = Some n3 \<and> n3 < 0
      \<and> activate_license tz secret now issued p3 request d3 = Inr (resp3, d3')
    \<longrightarrow> message resp3 \<noteq> ''Activation limit reached'')
   \<and> (supabase_get_license_row sd4 (chk_license_key creq4) = Some slic4
      \<and> sb_max_activations slic4 = Value m4 \<and> m4 < 0
    \<longrightarrow> message (fst (api_check isob secret now issued creq4 sd4)) \<noteq> ''Activation limit reached'')
   \<and> activate_license tz secret now issued p5 request (unlimit_all d5)
       = map_sum id (map_prod id unlimit_all)
           (activate_license tz secret now issued p5 request d5)
   \<and> api_check isob secret now issued creq6 (sb_unlimit_all sd6)
       = map_prod id sb_unlimit_all (api_check isob secret now issued creq6 sd6)"
proof (intro conjI impI)
  assume h: "req_license_key payload = Some k \<and> k \<noteq> [] \<and> first_license d k = Some lic
      \<and> active lic = Some True \<and> expired tz lic now = Inr False
      \<and> existing_activation d (lic_id lic) (req_device_id payload) = None
      \<and> max_activations lic = Some n \<and> n < 0"
  let ?resp = "granted ''Activated''
      (sign_activation secret (license_key lic) (req_device_id payload) issued)
      (license_summary lic) :: datetime response"
  let ?d' = "add_activation (lic_id lic) (or_unknown (req_device_id payload))
      (req_device_fingerprint payload) (request_ip request) now d"
  from h have res: "activate_license tz secret now issued payload request d = Inr (?resp, ?d')"
    by (simp add: activate_license_def max_act_of_def Let_def)
  show "\<exists>resp d'.
          activate_license tz secret now issued payload request d = Inr (resp, d')
        \<and> valid resp \<and> message resp = ''Activated''
        \<and> activation_token resp
            = Some (sign_activation secret (license_key lic) (req_device_id payload) issued)
        \<and> license resp
            = Some (LicenseInfo (license_key lic) (owner lic) (plan lic) (expires_at lic))
        \<and> licenses d' = licenses d
        \<and> activations d' = activations d @
            [\<lparr>act_id = Suc (fold max (map act_id (activations d)) 0), license_id = lic_id lic,
              device_id = Some (case req_device_id payload of
                                  None \<Rightarrow> ''unknown''
                                | Some x \<Rightarrow> if x = [] then ''unknown'' else x),
              device_fingerprint = req_device_fingerprint payload,
              ip = (case request of None \<Rightarrow> None | Some r \<Rightarrow> client_host r),
              last_seen = now, act_created_at = now\<rparr>]
        \<and> count_activations d' (lic_id lic) = Suc (count_activations d (lic_id lic))"
    using res
    by (intro exI[of _ ?resp] exI[of _ ?d'])
      (simp add: granted_def license_summary_def add_activation_def next_id_def or_unknown_def
        request_ip_def count_activations_def split: option.splits)
next
  assume h: "supabase_get_license_row sd (chk_license_key creq) = Some slic
      \<and> get_or (sb_active slic) (Some True) = Some True \<and> \<not> sb_expired isob slic now
      \<and> existing_in (supabase_get_activations_for_license sd (sb_id slic)) (chk_device_id creq) = None
      \<and> sb_max_activations slic = Value m \<and> m < 0"
  let ?resp = "granted ''Activated''
      (sign_activation secret (sb_key slic) (chk_device_id creq) issued)
      (sb_summary slic) :: string response"
  let ?d' = "add_activation (sb_id slic) (or_unknown (chk_device_id creq))
      (chk_device_fingerprint creq) None now sd"
  from h have res: "api_check isob secret now issued creq sd = (?resp, ?d')"
    by (simp add: api_check_def max_act_of_def get_or_def Let_def)
  show "\<exists>resp sd'.
          api_check isob secret now issued creq sd = (resp, sd')
        \<and> valid resp \<and> message resp = ''Activated''
        \<and> activation_token resp
            = Some (sign_activation secret (sb_key slic) (chk_device_id creq) issued)
        \<and> license resp
            = Some (LicenseInfo (sb_key slic) (sb_owner slic) (sb_plan slic) (sb_expires_at slic))
        \<and> licenses sd' = licenses sd
        \<and> activations sd' = activations sd @
            [\<lparr>act_id = Suc (fold max (map act_id (activations sd)) 0), license_id = sb_id slic,
              device_id = Some (case chk_device_id creq of
                                  None \<Rightarrow> ''unknown''
                                | Some x \<Rightarrow> if x = [] then ''unknown'' else x),
              device_fingerprint = chk_device_fingerprint creq, ip = None,
              last_seen = now, act_created_at = now\<rparr>]
        \<and> count_activations sd' (sb_id slic) = Suc (count_activations sd (sb_id slic))"
    using res
    by (intro exI[of _ ?resp] exI[of _ ?d'])
      (simp add: granted_def sb_summary_def add_activation_def next_id_def or_unknown_def
        count_activations_def split: option.splits)
next
  assume h: "req_license_key p3 = Some k3 \<and> first_license d3 k3 = Some lic3
      \<and> max_activations lic3 = Some n3 \<and> n3 < 0
      \<and> activate_license tz secret now issued p3 request d3 = Inr (resp3, d3')"
  show "message resp3 \<noteq> ''Activation limit reached''"
  proof
    assume "message resp3 = ''Activation limit reached''"
    with h activate_license_limit_branch[of tz secret now issued p3 request d3 resp3 d3' k3 lic3]
    show False by (simp add: max_act_of_def)
  qed
next
  assume h: "supabase_get_license_row sd4 (chk_license_key creq4) = Some slic4
      \<and> sb_max_activations slic4 = Value m4 \<and> m4 < 0"
  show "message (fst (api_check isob secret now issued creq4 sd4)) \<noteq> ''Activation limit reached''"
  proof
    assume "message (fst (api_check isob secret now issued creq4 sd4)) = ''Activation limit reached''"
    with h api_check_limit_branch[of isob secret now issued creq4 sd4 slic4]
    show False by (simp add: max_act_of_def get_or_def)
  qed
next
  show "activate_license tz secret now issued p5 request (unlimit_all d5)
       = map_sum id (map_prod id unlimit_all)
           (activate_license tz secret now issued p5 request d5)"
    by (rule activate_license_unlimit)
next
  show "api_check isob secret now issued creq6 (sb_unlimit_all sd6)
       = map_prod id sb_unlimit_all (api_check isob secret now issued creq6 sd6)"
    by (rule api_check_unlimit)
qed

text \<open>
  The license \<open>lic_negative\<close> has quota \<open>-1\<close> and two rows already. A third device, and a
  request without device id, are admitted by both endpoints, and the store with the quota
  replaced by 0 gives the same answer and the same rows.
\<close>

theorem negative_quota_is_unlimited_witness:
  "first_license db_negative ''KEY-4'' = Some lic_negative
   \<and> max_activations lic_negative = Some (- 1)
   \<and> count_activations db_negative (lic_id lic_negative) = 2
   \<and> activate_license False ''s3cret'' 10 10 (req ''KEY-4'' (Some ''C''))
        (Some (Request (Some ''10.0.0.7''))) db_negative
       = Inr (\<lparr>valid = True, message = ''Activated'',
               activation_token = Some (sign_activation ''s3cret'' ''KEY-4'' (Some ''C'') 10),
               license = Some (LicenseInfo ''KEY-4'' None None None)\<rparr>,
              \<lparr>licenses = [lic_negative],
               activations = activations db_negative @
                 [\<lparr>act_id = 3, license_id = 4, device_id = Some ''C'', device_fingerprint = None,
                   ip = Some ''10.0.0.7'', last_seen = 10, act_created_at = 10\<rparr>]\<rparr>)
   \<and> activate_license False ''s3cret'' 10 10 (req ''KEY-4'' None) None db_negative
       = Inr (\<lparr>valid = True, message = ''Activated'',
               activation_token = Some (sign_activation ''s3cret'' ''KEY-4'' None 10),
               license = Some (LicenseInfo ''KEY-4'' None None None)\<rparr>,
              \<lparr>licenses = [lic_negative],
               activations = activations db_negative @
                 [\<lparr>act_id = 3, license_id = 4, device_id = Some ''unknown'',
                   device_fingerprint = None, ip = None, last_seen = 10,
                   act_created_at = 10\<rparr>]\<rparr>)
   \<and> supabase_get_license_row supabase_negative ''KEY-4'' = Some sb_negative
   \<and> sb_max_activations sb_negative = Value (- 1)
   \<and> api_check (\<lambda>e t. None) ''s3cret'' 10 10 (chk ''KEY-4'' (Some ''C'')) supabase_negative
       = (\<lparr>valid = True, message = ''Activated'',
           activation_token = Some (sign_activation ''s3cret'' ''KEY-4'' (Some ''C'') 10),
           license = Some (LicenseInfo ''KEY-4'' None None None)\<rparr>,
          \<lparr>licenses = [sb_negative],
           activations = activations db_negative @
             [\<lparr>act_id = 3, license_id = 4, device_id = Some ''C'', device_fingerprint = None,
               ip = None, last_seen = 10, act_created_at = 10\<rparr>]\<rparr>)
   \<and> api_check (\<lambda>e t. None) ''s3cret'' 10 10 (chk ''KEY-4'' None) supabase_negative
       = (\<lparr>valid = True, message = ''Activated'',
           activation_token = Some (sign_activation ''s3cret'' ''KEY-4'' None 10),
           license = Some (LicenseInfo ''KEY-4'' None None None)\<rparr>,
          \<lparr>licenses = [sb_negative],
           activations = activations db_negative @
             [\<lparr>act_id = 3, license_id = 4, device_id = Some ''unknown'',
               device_fingerprint = None, ip = None, last_seen = 10,
               act_created_at = 10\<rparr>]\<rparr>)
   \<and> licenses (unlimit_all db_negative) = [lic_negative\<lparr>max_activations := Some 0\<rparr>]
   \<and> activate_license False ''s3cret'' 10 10 (req ''KEY-4'' (Some ''C''))
        (Some (Request (Some ''10.0.0.7''))) (unlimit_all db_negative)
       = Inr (\<lparr>valid = True, message = ''Activated'',
               activation_token = Some (sign_activation ''s3cret'' ''KEY-4'' (Some ''C'') 10),
               license = Some (LicenseInfo ''KEY-4'' None None None)\<rparr>,
              \<lparr>licenses = [lic_negative\<lparr>max_activations := Some 0\<rparr>],
               activations = activations db_negative @
                 [\<lparr>act_id = 3, license_id = 4, device_id = Some ''C'', device_fingerprint = None,
                   ip = Some ''10.0.0.7'', last_seen = 10, act_created_at = 10\<rparr>]\<rparr>)
   \<and> licenses (sb_unlimit_all supabase_negative)
       = [sb_negative\<lparr>sb_max_activations := Value 0\<rparr>]
   \<and> api_check (\<lambda>e t. None) ''s3cret'' 10 10 (chk ''KEY-4'' (Some ''C''))
        (sb_unlimit_all supabase_negative)
       = (\<lparr>valid = True, message = ''Activated'',
           activation_token = Some (sign_activation ''s3cret'' ''KEY-4'' (Some ''C'') 10),
           license = Some (LicenseInfo ''KEY-4'' None None None)\<rparr>,
          \<lparr>licenses = [sb_negative\<lparr>sb_max_activations := Value 0\<rparr>],
           activations = activations db_negative @
             [\<lparr>act_id = 3, license_id = 4, device_id = Some ''C'', device_fingerprint = None,
               ip = None, last_seen = 10, act_created_at = 10\<rparr>]\<rparr>)"
  using negative_quota_is_unlimited [where payload = "req ''KEY-4'' (Some ''C'')"
      and k = "''KEY-4''" and d = db_negative and lic = lic_negative and tz = False and now = 10
      and n = "- 1" and secret = "''s3cret''" and issued = 10
      and request = "Some (Request (Some ''10.0.0.7''))" and sd = supabase_negative
      and creq = "chk ''KEY-4'' (Some ''C'')" and slic = sb_negative and isob = "\<lambda>e t. None"
      and m = "- 1" and ?p3.0 = "req ''KEY-4'' (Some ''C'')" and ?k3.0 = "''KEY-4''"
      and ?d3.0 = db_negative and ?lic3.0 = lic_negative and ?n3.0 = "- 1"
      and ?resp3.0 = "granted ''Activated'' (sign_activation ''s3cret'' ''KEY-4'' (Some ''C'') 10)
                        (license_summary lic_negative)"
      and ?d3' = "add_activation 4 ''C'' None (Some ''10.0.0.7'') 10 db_negative"
      and ?sd4.0 = supabase_negative and ?creq4.0 = "chk ''KEY-4'' (Some ''C'')"
      and ?slic4.0 = sb_negative and ?m4.0 = "- 1" and ?p5.0 = "req ''KEY-4'' (Some ''C'')"
      and ?d5.0 = db_negative and ?creq6.0 = "chk ''KEY-4'' (Some ''C'')"
      and ?sd6.0 = supabase_negative]
    negative_quota_is_unlimited [where payload = "req ''KEY-4'' None"
      and k = "''KEY-4''" and d = db_negative and lic = lic_negative and tz = False and now = 10
      and n = "- 1" and secret = "''s3cret''" and issued = 10
      and request = None and sd = supabase_negative
      and creq = "chk ''KEY-4'' None" and slic = sb_negative and isob = "\<lambda>e t. None"
      and m = "- 1" and ?p3.0 = "req ''KEY-4'' None" and ?k3.0 = "''KEY-4''"
      and ?d3.0 = db_negative and ?lic3.0 = lic_negative and ?n3.0 = "- 1"
      and ?resp3.0 = "granted ''Activated'' (sign_activation ''s3cret'' ''KEY-4'' None 10)
                        (license_summary lic_negative)"
      and ?d3' = "add_activation 4 ''unknown'' None None 10 db_negative"
      and ?sd4.0 = supabase_negative and ?creq4.0 = "chk ''KEY-4'' None"
      and ?slic4.0 = sb_negative and ?m4.0 = "- 1" and ?p5.0 = "req ''KEY-4'' None"
      and ?d5.0 = db_negative and ?creq6.0 = "chk ''KEY-4'' None"
      and ?sd6.0 = supabase_negative]
  by (simp add: req_def chk_def db_negative_def lic_negative_def act_A_def first_license_def
      expired_def existing_activation_def first_activation_def count_activations_def
      supabase_negative_def sb_negative_def supabase_get_license_row_def get_or_def
      sb_expired_def existing_in_def supabase_get_activations_for_license_def or_unknown_def
      request_ip_def activate_license_def api_check_def max_act_of_def add_activation_def
      next_id_def granted_def license_summary_def sb_summary_def unlimit_all_def unlimit_def
      sb_unlimit_all_def sb_unlimit_def)

section \<open>Creating licenses\<close>

lemma plan_names_distinct [simp]:
  "''1month'' \<noteq> ''lifetime''" "''3months'' \<noteq> ''lifetime''" "''6months'' \<noteq> ''lifetime''"
  by simp_all

text \<open>
  Claim C8, amended. With the admin token accepted and a generated key not yet in the table,
  \<open>create_license\<close> of \<open>app/routes/admin.py\<close> and the CLI's \<open>create_license\<close> append one
  license whose \<open>expires_at\<close> is what the specification says for the four plans; for any other
  plan they raise (HTTP 400, respectively \<open>ValueError\<close>) before anything is written.
  \<open>admin_create_license\<close> of \<open>main.py\<close> stores the same expiry for the four plans, rendered
  as an ISO string, and for any other plan creates a license without expiry.
\<close>

theorem create_license_plans:
  "(x_admin_token = Some ADMIN_TOKEN \<and> key \<notin> set (map license_key (licenses d))
    \<longrightarrow> (case spec_expiry now duration_plan of
           None \<Rightarrow>
             create_license ADMIN_TOKEN now key owner_name duration_plan max_acts x_admin_token d
               = Inl (HTTPException 400 ''Unknown duration_plan'')
             \<and> cli_create_license now key owner_name plan_name duration_plan max_acts d
               = Inl (ValueError ''Unknown duration_plan'')
         | Some expiry \<Rightarrow>
             create_license ADMIN_TOKEN now key owner_name duration_plan max_acts x_admin_token d
               = Inr ((key, expiry, Some max_acts),
                      d\<lparr>licenses := licenses d @
                        [\<lparr>lic_id = next_id (map lic_id (licenses d)), license_key = key,
                          owner = Some owner_name, plan = Some duration_plan,
                          expires_at = expiry, max_activations = Some max_acts,
                          active = Some True, lic_created_at = now\<rparr>]\<rparr>)
             \<and> cli_create_license now key owner_name plan_name duration_plan max_acts d
               = Inr (\<lparr>lic_id = next_id (map lic_id (licenses d)), license_key = key,
                        owner = Some owner_name, plan = Some plan_name,
                        expires_at = expiry, max_activations = Some max_acts,
                        active = Some True, lic_created_at = now\<rparr>,
                      d\<lparr>licenses := licenses d @
                        [\<lparr>lic_id = next_id (map lic_id (licenses d)), license_key = key,
                          owner = Some owner_name, plan = Some plan_name,
                          expires_at = expiry, max_activations = Some max_acts,
                          active = Some True, lic_created_at = now\<rparr>]\<rparr>)))
   \<and> (x_admin_token = Some ADMIN_TOKEN
    \<longrightarrow> admin_create_license isoformat ADMIN_TOKEN now key owner_name plan_name duration_plan
             max_acts x_admin_token sd
         = Inr ((key, owner_name,
                 case spec_expiry now duration_plan of
                   None \<Rightarrow> None
                 | Some expiry \<Rightarrow> map_option isoformat expiry),
                sd\<lparr>licenses := licenses sd @
                  [\<lparr>sb_id = next_id (map sb_id (licenses sd)), sb_key = key,
                    sb_owner = Some owner_name, sb_plan = Some plan_name,
                    sb_expires_at =
                      (case spec_expiry now duration_plan of
                         None \<Rightarrow> None
                       | Some expiry \<Rightarrow> map_option isoformat expiry),
                    sb_max_activations = Value max_acts, sb_active = Value True,
                    sb_created_at = now\<rparr>]\<rparr>))"
  by (simp add: spec_expiry_def create_license_def cli_create_license_def admin_create_license_def
      verify_admin_def add_license_def supabase_create_license_row_def Let_def)

theorem create_license_plans_witness:
  "spec_expiry 1000 ''3months'' = Some (Some (1000 + days 90))
   \<and> create_license ''adm1n'' 1000 ''NEW-KEY'' ''bob'' ''3months'' 2 (Some ''adm1n'') db_fresh
       = Inr ((''NEW-KEY'', Some (1000 + days 90), Some 2),
              db_fresh\<lparr>licenses := licenses db_fresh @
                [\<lparr>lic_id = 2, license_key = ''NEW-KEY'', owner = Some ''bob'',
                  plan = Some ''3months'', expires_at = Some (1000 + days 90),
                  max_activations = Some 2, active = Some True, lic_created_at = 1000\<rparr>]\<rparr>)
   \<and> spec_expiry 1000 ''weekly'' = None
   \<and> create_license ''adm1n'' 1000 ''NEW-KEY'' ''bob'' ''weekly'' 2 (Some ''adm1n'') db_fresh
       = Inl (HTTPException 400 ''Unknown duration_plan'')
   \<and> cli_create_license 1000 ''NEW-KEY'' ''bob'' ''manual'' ''weekly'' 2 db_fresh
       = Inl (ValueError ''Unknown duration_plan'')
   \<and> admin_create_license (\<lambda>t. ''ISO'') ''adm1n'' 1000 ''NEW-KEY'' ''bob'' ''manual'' ''1month'' 2
        (Some ''adm1n'') supabase_quota
       = Inr ((''NEW-KEY'', ''bob'', Some ''ISO''),
              supabase_quota\<lparr>licenses := licenses supabase_quota @
                [\<lparr>sb_id = 2, sb_key = ''NEW-KEY'', sb_owner = Some ''bob'', sb_plan = Some ''manual'',
                  sb_expires_at = Some ''ISO'', sb_max_activations = Value 2,
                  sb_active = Value True, sb_created_at = 1000\<rparr>]\<rparr>)"
  using create_license_plans [where x_admin_token = "Some ''adm1n''" and ADMIN_TOKEN = "''adm1n''"
      and key = "''NEW-KEY''" and d = db_fresh and now = 1000 and duration_plan = "''3months''"
      and owner_name = "''bob''" and max_acts = 2 and plan_name = "''manual''"
      and isoformat = "\<lambda>t. ''ISO''" and sd = supabase_quota]
    create_license_plans [where x_admin_token = "Some ''adm1n''" and ADMIN_TOKEN = "''adm1n''"
      and key = "''NEW-KEY''" and d = db_fresh and now = 1000 and duration_plan = "''weekly''"
      and owner_name = "''bob''" and max_acts = 2 and plan_name = "''manual''"
      and isoformat = "\<lambda>t. ''ISO''" and sd = supabase_quota]
    create_license_plans [where x_admin_token = "Some ''adm1n''" and ADMIN_TOKEN = "''adm1n''"
      and key = "''NEW-KEY''" and d = db_fresh and now = 1000 and duration_plan = "''1month''"
      and owner_name = "''bob''" and max_acts = 2 and plan_name = "''manual''"
      and isoformat = "\<lambda>t. ''ISO''" and sd = supabase_quota]
  by (simp add: spec_expiry_def db_fresh_def lic1_def supabase_quota_def sb_quota_def next_id_def)

text \<open>
  Claim C8 as stated fails for \<open>admin_create_license\<close> of \<open>main.py\<close>: the plan
  \<open>weekly\<close> is none of the four, yet the call returns normally and the table has gained a
  license without expiry.
\<close>

theorem unknown_plan_accepted_by_supabase_variant:
  "spec_expiry 1000 ''weekly'' = None
   \<and> admin_create_license (\<lambda>t. ''ISO'') ''adm1n'' 1000 ''NEW-KEY'' ''bob'' ''manual'' ''weekly'' 2
        (Some ''adm1n'') supabase_quota
       = Inr ((''NEW-KEY'', ''bob'', None),
              \<lparr>licenses = [sb_quota,
                 \<lparr>sb_id = 2, sb_key = ''NEW-KEY'', sb_owner = Some ''bob'', sb_plan = Some ''manual'',
                   sb_expires_at = None, sb_max_activations = Value 2,
                   sb_active = Value True, sb_created_at = 1000\<rparr>],
               activations = []\<rparr>)"
  by (simp add: spec_expiry_def admin_create_license_def verify_admin_def
      supabase_create_license_row_def supabase_quota_def sb_quota_def next_id_def Let_def)


end
